theory Spec2Isabelle
  imports Main "HOL-Library.Mapping" "HOL-Library.AList_Mapping"
begin

section \<open>Data model\<close>

text \<open>
  The entity structs of the collections file. \<open>ItemState\<close> is the \<open>iota\<close> enumeration
  \<open>Buffered, Scheduled, Published, Removed\<close>. Strings are byte strings, as in Go.
  A field that is a pointer which may be nil (\<open>PublishAt\<close>, \<open>UploadId\<close>) is an option.
  Record fields carry the struct's name as a prefix, because several structs have a
  \<open>Path\<close>, a \<open>State\<close> and a \<open>Title\<close>.
\<close>

datatype ItemState = Buffered | Scheduled | Published | Removed

text \<open>
  A \<open>time.Time\<close>: its instant, in nanoseconds since the Unix epoch, and its
  \<open>Location\<close>. The times of this program are in \<open>time.UTC\<close> (made by \<open>time.Date\<close>
  and \<open>time.Parse\<close>, or read from the collections file), in \<open>time.Local\<close>
  (\<open>time.Now()\<close>, or read from the file) or in a zone of fixed offset, in seconds east
  of UTC (read from the file). Every \<open>time.Time\<close> is such a pair; the type has more
  instants than the 64-bit representation of the library.
\<close>

datatype Location = UTC | Local | FixedZone int

record Time =
  instant :: int
  loc :: Location

record Video =
  Video_Title :: string
  Video_Description :: string
  Video_Path :: string
  Video_State :: ItemState
  Video_PublishAt :: "Time option"
  Video_UploadId :: "string option"
  Video_Audio :: string
  Video_Image :: string

record Track =
  Track_Title :: string
  Track_By :: string
  Track_Artists :: "string list"
  Track_Description :: string
  Track_Path :: string
  Track_State :: ItemState

record Artwork =
  Artwork_Artist :: string
  Artwork_Path :: string
  Artwork_State :: ItemState

record Artist =
  Artist_Name :: string
  Artist_Links :: "string list"

text \<open>
  The interface \<open>Collection\<close> is implemented by the four entity kinds; a value of the
  interface is one of them.
\<close>

datatype Collection =
  IsTrack Track | IsArtwork Artwork | IsVideo Video | IsArtist Artist

text \<open>
  \<open>strings.ToLower\<close> on the bytes of an ASCII string: the letters \<open>A\<close> to \<open>Z\<close> become
  \<open>a\<close> to \<open>z\<close>, every other byte is kept. (On a string with a byte from \<open>0x80\<close> on
  the library also maps the upper-case letters of Unicode; that mapping is not part
  of the model, and the results below that depend on the lowercased name of an
  artist are about ASCII names.)
\<close>

definition lowerByte :: "char \<Rightarrow> char" where
  "lowerByte ch =
     (let n = (of_char ch :: nat)
      in if 65 \<le> n \<and> n \<le> 90 then char_of (n + 32) else ch)"

definition ToLower :: "string \<Rightarrow> string" where
  "ToLower s = map lowerByte s"

fun UniqueId :: "Collection \<Rightarrow> string" where
  "UniqueId (IsTrack t) = Track_Path t"
| "UniqueId (IsArtwork a) = Artwork_Path a"
| "UniqueId (IsArtist a) = ToLower (Artist_Name a)"
| "UniqueId (IsVideo v) = Video_Path v"

text \<open>
  The collections. \<open>Indexes\<close> is a Go map from unique id to the entity; the model keeps
  the entity's value as it was when the entry was written. The operations below never
  change a field of an entity that stays in its slot, so that value is the one the
  pointer of the source reaches.
\<close>

record Collections =
  Tracks :: "Track list"
  Artwork :: "Artwork list"
  Schedule :: "Video list"
  Artists :: "Artist list"
  Indexes :: "(string, Collection) mapping"

section \<open>Identity and indexing\<close>

text \<open>
  \<open>UpdateIndexes\<close> runs over the four slices in the order tracks, artwork, schedule,
  artists and stores every entity under its unique id. It starts from the map as it
  is: nothing is deleted from the map first.
\<close>

definition indexEntry :: "Collection \<Rightarrow> (string, Collection) mapping \<Rightarrow> (string, Collection) mapping" where
  "indexEntry e m = Mapping.update (UniqueId e) e m"

definition entities :: "Collections \<Rightarrow> Collection list" where
  "entities c =
     map IsTrack (Tracks c) @ map IsArtwork (Artwork c) @
     map IsVideo (Schedule c) @ map IsArtist (Artists c)"

definition UpdateIndexes :: "Collections \<Rightarrow> Collections" where
  "UpdateIndexes c = c\<lparr>Indexes := fold indexEntry (entities c) (Indexes c)\<rparr>"

text \<open>
  \<open>Find\<close> returns the entry (None is \<open>ok = false\<close>) and the collections, whose index it
  may have rebuilt.
\<close>

definition lengthSum :: "Collections \<Rightarrow> nat" where
  "lengthSum c =
     length (Artists c) + length (Artwork c) + length (Tracks c) + length (Schedule c)"

definition Find :: "Collections \<Rightarrow> string \<Rightarrow> Collection option \<times> Collections" where
  "Find c ident =
     (let c' = (if lengthSum c \<noteq> Mapping.size (Indexes c) then UpdateIndexes c else c)
      in (Mapping.lookup (Indexes c') ident, c'))"

section \<open>Ways a run ends early\<close>

text \<open>
  A Go panic, by its cause. \<open>SliceBounds low high\<close> is a slice expression
  \<open>s[low:high]\<close> that is out of range, \<open>IndexOutOfRange i\<close> an index expression,
  \<open>NilDereference\<close> a method call through a nil pointer, \<open>InterfaceConversion\<close> a
  failed type assertion, \<open>PanicString\<close> an explicit \<open>panic(msg)\<close>.
\<close>

datatype panic =
    SliceBounds nat int
  | IndexOutOfRange int
  | NilDereference
  | InterfaceConversion
  | PanicString string

text \<open>
  \<open>userError\<close> prints its message and calls \<open>os.Exit(1)\<close>: the run ends there
  (\<open>Exit\<close>). An \<open>error\<close> value made by \<open>errors.New\<close> is an ordinary return value.
\<close>

datatype abort = Panic panic | Exit string

datatype error = errors_New string

definition Err_ImmutableResource :: "string \<Rightarrow> string" where
  "Err_ImmutableResource what =
     ''Cannot update '' @ what @ '' as it is already schedule or published.''"

definition Err_CreateResource :: "string \<Rightarrow> string" where
  "Err_CreateResource what = ''Could not create '' @ what @ ''.''"

definition Err_NoBufferedTrack :: string where
  "Err_NoBufferedTrack = ''No new music to schedule.''"

definition Err_NoBufferedArtwork :: string where
  "Err_NoBufferedArtwork = ''No new artwork to schedule.''"

section \<open>Insertion and replacement\<close>

text \<open>
  \<open>updateArtists\<close>: for each artist in turn, look the lowercased name up with \<open>Find\<close>;
  when it is found the function returns (the remaining names are not looked at),
  otherwise an artist with no links is appended.
\<close>

fun updateArtists :: "Collections \<Rightarrow> string list \<Rightarrow> Collections" where
  "updateArtists c [] = c"
| "updateArtists c (artist # artists) =
     (case Find c (ToLower artist) of
        (Some found, c') \<Rightarrow> c'
      | (None, c') \<Rightarrow>
          updateArtists
            (c'\<lparr>Artists := Artists c' @ [\<lparr>Artist_Name = artist, Artist_Links = []\<rparr>]\<rparr>)
            artists)"

text \<open>
  The loop \<open>for i, t := range c.Tracks\<close> of \<open>AddTrack\<close>, from slot \<open>i\<close> on, and the
  append behind it. The result is the new slice, or the exit of \<open>userError\<close>.
\<close>

function AddTrack_loop :: "Track list \<Rightarrow> nat \<Rightarrow> Track \<Rightarrow> abort + Track list" where
  "AddTrack_loop ts i track =
     (if i < length ts then
        (if Track_Path (ts ! i) = Track_Path track then
           (if Track_State (ts ! i) \<noteq> Track_State track \<and> Track_State (ts ! i) \<noteq> Removed
            then Inl (Exit (Err_ImmutableResource ''music''))
            else Inr (ts[i := track]))
         else AddTrack_loop ts (i + 1) track)
      else Inr (ts @ [track]))"
  by pat_completeness auto
termination
  by (relation "measure (\<lambda>(ts, i, track). length ts - i)") auto

text \<open>
  \<open>AddTrack\<close> returns the exit, if any, and the collections as they are when the
  function returns or the run ends.
\<close>

definition AddTrack :: "Collections \<Rightarrow> Track \<Rightarrow> abort option \<times> Collections" where
  "AddTrack c track =
     (let c1 = updateArtists c (Track_Artists track)
      in case AddTrack_loop (Tracks c1) 0 track of
           Inl stop \<Rightarrow> (Some stop, c1)
         | Inr ts \<Rightarrow> (None, c1\<lparr>Tracks := ts\<rparr>))"

function AddArtwork_loop :: "Artwork list \<Rightarrow> nat \<Rightarrow> Artwork \<Rightarrow> abort + Artwork list" where
  "AddArtwork_loop as i artwork =
     (if i < length as then
        (if Artwork_Path (as ! i) = Artwork_Path artwork then
           (if Artwork_State (as ! i) \<noteq> Artwork_State artwork \<and> Artwork_State (as ! i) \<noteq> Removed
            then Inl (Exit (Err_ImmutableResource ''art''))
            else Inr (as[i := artwork]))
         else AddArtwork_loop as (i + 1) artwork)
      else Inr (as @ [artwork]))"
  by pat_completeness auto
termination
  by (relation "measure (\<lambda>(as, i, artwork). length as - i)") auto

definition AddArtwork :: "Collections \<Rightarrow> Artwork \<Rightarrow> abort option \<times> Collections" where
  "AddArtwork c artwork =
     (let c1 = updateArtists c [Artwork_Artist artwork]
      in case AddArtwork_loop (Artwork c1) 0 artwork of
           Inl stop \<Rightarrow> (Some stop, c1)
         | Inr as \<Rightarrow> (None, c1\<lparr>Artwork := as\<rparr>))"

section \<open>Pairing\<close>

record Schedule =
  Schedule_Tracks :: "Track list"
  Schedule_Artwork :: "Artwork list"
  Schedule_Count :: nat

text \<open>
  The two backward scans of \<open>NewSchedule\<close>. The second argument is the number of slots
  still to visit: \<open>Suc i\<close> visits slot \<open>i\<close> and goes on with the slots below it.
\<close>

fun bufferedTracks :: "Track list \<Rightarrow> nat \<Rightarrow> Track list \<Rightarrow> Track list" where
  "bufferedTracks ts 0 tracks = tracks"
| "bufferedTracks ts (Suc i) tracks =
     bufferedTracks ts i
       (if Track_State (ts ! i) = Buffered then tracks @ [ts ! i] else tracks)"

fun bufferedArtwork :: "Artwork list \<Rightarrow> nat \<Rightarrow> Artwork list \<Rightarrow> Artwork list" where
  "bufferedArtwork as 0 artwork = artwork"
| "bufferedArtwork as (Suc i) artwork =
     bufferedArtwork as i
       (if Artwork_State (as ! i) = Buffered then artwork @ [as ! i] else artwork)"

text \<open>
  \<open>NewSchedule\<close> takes the collections by pointer and assigns to nothing reachable
  from them; the second component of the result is the collections after the call.
  \<open>count\<close> is the minimum of the two lengths (taken through \<open>float64\<close> in the source,
  which is exact for slice lengths).
\<close>

definition NewSchedule :: "Collections \<Rightarrow> (error + Schedule) \<times> Collections" where
  "NewSchedule c =
     (let tracks = bufferedTracks (Tracks c) (length (Tracks c)) []
      in if length tracks = 0 then (Inl (errors_New Err_NoBufferedTrack), c)
         else
           (let artwork = bufferedArtwork (Artwork c) (length (Artwork c)) []
            in if length artwork = 0 then (Inl (errors_New Err_NoBufferedArtwork), c)
               else
                 (let count = min (length tracks) (length artwork)
                  in (Inr \<lparr>Schedule_Tracks = take count tracks,
                           Schedule_Artwork = take count artwork,
                           Schedule_Count = count\<rparr>, c))))"

section \<open>Template substitution\<close>

type_synonym Template = "string \<rightharpoonup> string"

text \<open>
  \<open>strings.IndexByte\<close>: the index of the first occurrence of the byte, or \<open>-1\<close>.
\<close>

definition IndexByte :: "string \<Rightarrow> char \<Rightarrow> int" where
  "IndexByte s c =
     (if c \<in> set s then int (length (takeWhile (\<lambda>x. x \<noteq> c) s)) else - 1)"

text \<open>
  The closure \<open>next\<close> of \<open>buildTemplate\<close>: the byte after position \<open>pos\<close>, if there is
  one (None is the result \<open>false\<close>).
\<close>

definition nextByte :: "string \<Rightarrow> nat \<Rightarrow> char option" where
  "nextByte format pos =
     (if pos + 1 \<ge> length format then None else Some (format ! (pos + 1)))"

text \<open>
  The message \<open>fmt.Sprintf("invalid key '%s' in '%s'", key, format)\<close>.
\<close>

definition invalidKey :: "string \<Rightarrow> string \<Rightarrow> string" where
  "invalidKey key format =
     ''invalid key '' @ [CHR 0x27] @ key @ [CHR 0x27] @ '' in '' @
     [CHR 0x27] @ format @ [CHR 0x27]"

text \<open>
  The loop of \<open>buildTemplate\<close> from position \<open>i\<close> on, with the builder's content \<open>b\<close>.
  The result is the pair the function returns (the string and the error, None for
  \<open>nil\<close>), or the panic of the slice expression \<open>format[i:end]\<close>: when no \<open>)\<close> follows,
  \<open>IndexByte\<close> is \<open>-1\<close> and \<open>end\<close> is \<open>i - 1\<close>.
\<close>

function buildTemplate_loop ::
  "string \<Rightarrow> Template \<Rightarrow> nat \<Rightarrow> string \<Rightarrow> panic + (string \<times> error option)" where
  "buildTemplate_loop format template i b =
     (if i < length format then
        (let tokA = format ! i
         in if nextByte format i = Some (CHR ''('') \<and> tokA = CHR ''%'' then
              (let i2 = i + 2;
                   endpos = IndexByte (drop i2 format) (CHR '')'') + int i2
               in if endpos < int i2 then Inl (SliceBounds i2 endpos)
                  else
                    (let key = take (nat endpos - i2) (drop i2 format)
                     in case template key of
                          None \<Rightarrow> Inr (format, Some (errors_New (invalidKey key format)))
                        | Some val \<Rightarrow>
                            buildTemplate_loop format template (nat endpos + 1) (b @ val)))
            else buildTemplate_loop format template (i + 1) (b @ [tokA]))
      else Inr (b, None))"
  by pat_completeness auto
termination
  by (relation "measure (\<lambda>(format, template, i, b). length format - i)") auto

definition buildTemplate :: "string \<Rightarrow> Template \<Rightarrow> panic + (string \<times> error option)" where
  "buildTemplate format template = buildTemplate_loop format template 0 []"

text \<open>
  The key of the placeholder that starts at position \<open>i\<close>: the text behind \<open>%(\<close> up to
  the next \<open>)\<close>. Used to state the steps of the loop.
\<close>

definition keyAt :: "string \<Rightarrow> nat \<Rightarrow> string" where
  "keyAt format i = takeWhile (\<lambda>x. x \<noteq> CHR '')'') (drop (i + 2) format)"

section \<open>Video composition\<close>

record VideoFormat =
  Format_Title :: string
  Format_Header :: string
  Format_ArtworkCredits :: string
  Format_TrackCredits :: string
  Format_Link :: string
  Format_Footer :: string

record VideoBuilder =
  Builder_Track :: Track
  Builder_Art :: Artwork
  Builder_Format :: VideoFormat
  Builder_Extension :: string

text \<open>
  \<open>templateGen\<close> holds two pointers, to the collections and to the string builder;
  the model holds what they point to, and every function returns it updated.
\<close>

record templateGen =
  gen_c :: Collections
  gen_b :: string

definition newline :: char where
  "newline = CHR 0x0A"

definition Title :: "VideoBuilder \<Rightarrow> panic + (string \<times> error option)" where
  "Title self =
     buildTemplate (Format_Title (Builder_Format self))
       [''by'' \<mapsto> Track_By (Builder_Track self), ''title'' \<mapsto> Track_Title (Builder_Track self)]"

text \<open>
  The \<open>write...\<close> functions return their \<open>error\<close> (None for \<open>nil\<close>) and the generator
  state at the return.
\<close>

definition writeHeader :: "VideoBuilder \<Rightarrow> templateGen \<Rightarrow> panic + (error option \<times> templateGen)" where
  "writeHeader self gen =
     (if Format_Header (Builder_Format self) \<noteq> [] then
        (case buildTemplate (Format_Header (Builder_Format self))
                [''by'' \<mapsto> Track_By (Builder_Track self),
                 ''title'' \<mapsto> Track_Title (Builder_Track self)] of
           Inl p \<Rightarrow> Inl p
         | Inr (header, Some err) \<Rightarrow> Inr (Some err, gen)
         | Inr (header, None) \<Rightarrow>
             Inr (None, gen\<lparr>gen_b := gen_b gen @ header @ [newline, newline]\<rparr>))
      else Inr (None, gen))"

fun writeLinks_loop ::
  "VideoBuilder \<Rightarrow> string list \<Rightarrow> templateGen \<Rightarrow> panic + (error option \<times> templateGen)" where
  "writeLinks_loop self [] gen = Inr (None, gen)"
| "writeLinks_loop self (l # ls) gen =
     (case buildTemplate (Format_Link (Builder_Format self)) [''link'' \<mapsto> l] of
        Inl p \<Rightarrow> Inl p
      | Inr (link, Some err) \<Rightarrow> Inr (Some err, gen)
      | Inr (link, None) \<Rightarrow>
          writeLinks_loop self ls (gen\<lparr>gen_b := gen_b gen @ link @ [newline]\<rparr>))"

definition writeLinks ::
  "VideoBuilder \<Rightarrow> templateGen \<Rightarrow> string \<Rightarrow> panic + (error option \<times> templateGen)" where
  "writeLinks self gen ident =
     (case Find (gen_c gen) (ToLower ident) of
        (None, c') \<Rightarrow> Inl (PanicString (''artist '' @ ident @ '' not in collections''))
      | (Some col, c') \<Rightarrow>
          (case col of
             IsArtist artist \<Rightarrow> writeLinks_loop self (Artist_Links artist) (gen\<lparr>gen_c := c'\<rparr>)
           | IsTrack t \<Rightarrow> Inl InterfaceConversion
           | IsArtwork a \<Rightarrow> Inl InterfaceConversion
           | IsVideo v \<Rightarrow> Inl InterfaceConversion))"

fun writeTrackCredits_loop ::
  "VideoBuilder \<Rightarrow> string list \<Rightarrow> templateGen \<Rightarrow> panic + (error option \<times> templateGen)" where
  "writeTrackCredits_loop self [] gen = Inr (None, gen)"
| "writeTrackCredits_loop self (a # as) gen =
     (case buildTemplate (Format_TrackCredits (Builder_Format self)) [''artist'' \<mapsto> a] of
        Inl p \<Rightarrow> Inl p
      | Inr (credits, Some err) \<Rightarrow> Inr (Some err, gen)
      | Inr (credits, None) \<Rightarrow>
          (case writeLinks self (gen\<lparr>gen_b := gen_b gen @ credits @ [newline]\<rparr>) a of
             Inl p \<Rightarrow> Inl p
           | Inr (Some err, gen') \<Rightarrow> Inr (Some err, gen')
           | Inr (None, gen') \<Rightarrow>
               writeTrackCredits_loop self as (gen'\<lparr>gen_b := gen_b gen' @ [newline]\<rparr>)))"

definition writeTrackCredits ::
  "VideoBuilder \<Rightarrow> templateGen \<Rightarrow> panic + (error option \<times> templateGen)" where
  "writeTrackCredits self gen =
     writeTrackCredits_loop self (Track_Artists (Builder_Track self)) gen"

text \<open>
  \<open>writeArtCredits\<close> assigns the result of \<open>writeLinks\<close> to \<open>err\<close> and then returns
  \<open>nil\<close>.
\<close>

definition writeArtCredits ::
  "VideoBuilder \<Rightarrow> templateGen \<Rightarrow> panic + (error option \<times> templateGen)" where
  "writeArtCredits self gen =
     (case buildTemplate (Format_ArtworkCredits (Builder_Format self))
             [''artist'' \<mapsto> Artwork_Artist (Builder_Art self)] of
        Inl p \<Rightarrow> Inl p
      | Inr (credits, Some err) \<Rightarrow> Inr (Some err, gen)
      | Inr (credits, None) \<Rightarrow>
          (case writeLinks self (gen\<lparr>gen_b := gen_b gen @ credits @ [newline]\<rparr>)
                  (Artwork_Artist (Builder_Art self)) of
             Inl p \<Rightarrow> Inl p
           | Inr (err, gen') \<Rightarrow> Inr (None, gen')))"

text \<open>
  \<open>Desc\<close> returns the description and the error, and the collections after the call
  (the lookups may have rebuilt the index).
\<close>

definition Desc ::
  "VideoBuilder \<Rightarrow> Collections \<Rightarrow> panic + ((string \<times> error option) \<times> Collections)" where
  "Desc self c =
     (case writeHeader self \<lparr>gen_c = c, gen_b = []\<rparr> of
        Inl p \<Rightarrow> Inl p
      | Inr (Some err, gen1) \<Rightarrow> Inr (([], Some err), gen_c gen1)
      | Inr (None, gen1) \<Rightarrow>
          (let gen2 =
                 (if Track_Description (Builder_Track self) \<noteq> []
                  then gen1\<lparr>gen_b := gen_b gen1 @ Track_Description (Builder_Track self) @
                                       [newline, newline]\<rparr>
                  else gen1)
           in case writeTrackCredits self gen2 of
                Inl p \<Rightarrow> Inl p
              | Inr (Some err, gen3) \<Rightarrow> Inr (([], Some err), gen_c gen3)
              | Inr (None, gen3) \<Rightarrow>
                  (case writeArtCredits self gen3 of
                     Inl p \<Rightarrow> Inl p
                   | Inr (Some err, gen4) \<Rightarrow> Inr (([], Some err), gen_c gen4)
                   | Inr (None, gen4) \<Rightarrow>
                       (let gen5 =
                              (if Format_Footer (Builder_Format self) \<noteq> []
                               then gen4\<lparr>gen_b := gen_b gen4 @ [newline] @
                                                    Format_Footer (Builder_Format self)\<rparr>
                               else gen4)
                        in Inr ((gen_b gen5, None), gen_c gen5)))))"

section \<open>Time slots\<close>

text \<open>
  \<open>After\<close> of two times of which at least one has no monotonic clock reading (all
  times but \<open>time.Now()\<close> have none) compares the instants.
\<close>

definition After :: "Time \<Rightarrow> Time \<Rightarrow> bool" where
  "After t u = (instant t > instant u)"

text \<open>
  \<open>time.Time{}\<close>, the zero time: 1 January of year 1, 00:00 UTC.
\<close>

definition zeroTime :: Time where
  "zeroTime = \<lparr>instant = - 62135596800 * 1000000000, loc = UTC\<rparr>"

text \<open>
  The other functions of package \<open>time\<close> that the scheduler calls belong to the
  standard library, and what they return depends on the time zone data of the
  machine. They are parameters of the model: \<open>time_Parse layout value\<close> is None when
  \<open>time.Parse\<close> returns an error; \<open>time_AddDate t years months days\<close> is
  \<open>t.AddDate(years, months, days)\<close>; \<open>time_Date\<close> is \<open>time.Date\<close> (its integer
  arguments in the order year, month, day, hour, min, sec, nsec); the others are the
  accessors \<open>t.Year()\<close> to \<open>t.Second()\<close>.
\<close>

record time_pkg =
  time_Parse :: "string \<Rightarrow> string \<Rightarrow> Time option"
  time_AddDate :: "Time \<Rightarrow> int \<Rightarrow> int \<Rightarrow> int \<Rightarrow> Time"
  time_Date :: "int \<Rightarrow> int \<Rightarrow> int \<Rightarrow> int \<Rightarrow> int \<Rightarrow> int \<Rightarrow> int \<Rightarrow> Location \<Rightarrow> Time"
  time_Year :: "Time \<Rightarrow> int"
  time_Month :: "Time \<Rightarrow> int"
  time_Day :: "Time \<Rightarrow> int"
  time_Hour :: "Time \<Rightarrow> int"
  time_Minute :: "Time \<Rightarrow> int"
  time_Second :: "Time \<Rightarrow> int"

text \<open>
  The result of an arithmetic operation on Go's \<open>int\<close> (64 bits): the exact result,
  wrapped around into the range from \<open>-2^63\<close> to \<open>2^63 - 1\<close>.
\<close>

definition wrap64 :: "int \<Rightarrow> int" where
  "wrap64 x = (x + 9223372036854775808) mod 18446744073709551616 - 9223372036854775808"

definition mergeDateTimeUTC :: "time_pkg \<Rightarrow> Time \<Rightarrow> Time \<Rightarrow> Time" where
  "mergeDateTimeUTC tm date t =
     time_Date tm (time_Year tm date) (time_Month tm date) (time_Day tm date)
       (time_Hour tm t) (time_Minute tm t) (time_Second tm t) 0 UTC"

text \<open>
  The fields of \<open>ScheduleCommand\<close> that the time slots depend on.
\<close>

record ScheduleCommand =
  UploadFrequency :: int
  UploadTimeUTC :: string

definition Err_InvalidUploadTime :: "string \<Rightarrow> string" where
  "Err_InvalidUploadTime s = ''Upload time '' @ s @ '' is not valid (expected hh:ss:mm).''"

text \<open>
  \<open>scheduleTime\<close>. When \<open>time.Parse\<close> returns an error, \<open>userError\<close> ends the run. The
  product \<open>pos*self.UploadFrequency\<close> is a product of Go \<open>int\<close>s.
\<close>

definition scheduleTime ::
  "time_pkg \<Rightarrow> ScheduleCommand \<Rightarrow> Time \<Rightarrow> int \<Rightarrow> abort + Time" where
  "scheduleTime tm self start pos =
     (case time_Parse tm ''15:04:05'' (UploadTimeUTC self) of
        None \<Rightarrow> Inl (Exit (Err_InvalidUploadTime (UploadTimeUTC self)))
      | Some uploadTime \<Rightarrow>
          Inr (mergeDateTimeUTC tm
                 (time_AddDate tm start 0 0 (wrap64 (pos * UploadFrequency self)))
                 uploadTime))"

text \<open>
  The time slot of one video in the loop of \<open>renderAll\<close>: \<open>scheduleTime\<close> at the
  video's position in the batch, then the assignment of \<open>vid.PublishAt\<close>.
\<close>

definition renderAll_PublishAt ::
  "time_pkg \<Rightarrow> ScheduleCommand \<Rightarrow> Time \<Rightarrow> Time \<Rightarrow> int \<Rightarrow> Video \<Rightarrow> abort + Video" where
  "renderAll_PublishAt tm self startTime now pos vid =
     (case scheduleTime tm self startTime pos of
        Inl stop \<Rightarrow> Inl stop
      | Inr timeSlot \<Rightarrow>
          Inr (if After timeSlot now then vid\<lparr>Video_PublishAt := Some timeSlot\<rparr>
               else vid\<lparr>Video_PublishAt := Some now\<rparr>))"

text \<open>
  The loop of \<open>latestScheduledTime\<close>, \<open>for i := count - 1; i >= 1; i--\<close>: at \<open>Suc n\<close> it
  visits slot \<open>Suc n\<close> and goes on with \<open>n\<close>; at 0 it ends. \<open>video.PublishAt.After\<close> on a
  nil \<open>PublishAt\<close> is a nil dereference.
\<close>

fun latest_loop :: "Video list \<Rightarrow> nat \<Rightarrow> Time \<Rightarrow> panic + Time" where
  "latest_loop sched 0 latest = Inr latest"
| "latest_loop sched (Suc n) latest =
     (case Video_PublishAt (sched ! Suc n) of
        None \<Rightarrow> Inl NilDereference
      | Some publishAt \<Rightarrow>
          latest_loop sched n (if After publishAt latest then publishAt else latest))"

text \<open>
  \<open>latestScheduledTime\<close>; \<open>now\<close> is the reading of \<open>time.Now()\<close> inside it.
\<close>

definition latestScheduledTime :: "Time \<Rightarrow> Collections \<Rightarrow> panic + (Time \<times> bool)" where
  "latestScheduledTime now c =
     (if length (Schedule c) = 0 then Inr (zeroTime, False)
      else
        (let count = (if length (Schedule c) < 256 then length (Schedule c) else 256);
             latest = (case Video_PublishAt (Schedule c ! 0) of
                         Some publishAt \<Rightarrow> publishAt
                       | None \<Rightarrow> now)
         in case latest_loop (Schedule c) (count - 1) latest of
              Inl p \<Rightarrow> Inl p
            | Inr t \<Rightarrow> Inr (t, True)))"

text \<open>
  The start time of a batch in \<open>renderAll\<close>: the latest scheduled time, or \<open>now\<close> (read
  after the call) when there is none.
\<close>

definition renderAll_startTime :: "Time \<Rightarrow> Time \<Rightarrow> Collections \<Rightarrow> panic + Time" where
  "renderAll_startTime now0 now c =
     (case latestScheduledTime now0 c of
        Inl p \<Rightarrow> Inl p
      | Inr (startTime, ok) \<Rightarrow> Inr (if \<not> ok then now else startTime))"

section \<open>The add command\<close>

text \<open>
  \<open>AddCommand.Exec\<close>. \<open>paths\<close> is the result of \<open>listFilePaths(self.SrcPath)\<close>;
  \<open>NewTrack\<close> and \<open>NewArtwork\<close> stand for the functions that copy, move or download
  the file of a path and make the entity (None is their error). Removing the file
  and printing are not modelled.
\<close>

fun execAddAll ::
  "(Collections \<Rightarrow> string \<Rightarrow> abort + Collections) \<Rightarrow> string list \<Rightarrow> Collections \<Rightarrow>
     abort + Collections" where
  "execAddAll step [] c = Inr c"
| "execAddAll step (p # ps) c =
     (case step c p of Inl stop \<Rightarrow> Inl stop | Inr c' \<Rightarrow> execAddAll step ps c')"

definition execAddMusic ::
  "(string \<Rightarrow> Track option) \<Rightarrow> Collections \<Rightarrow> string \<Rightarrow> abort + Collections" where
  "execAddMusic NewTrack c src =
     (case NewTrack src of
        None \<Rightarrow> Inl (Exit (Err_CreateResource ''music''))
      | Some track \<Rightarrow>
          (case AddTrack c track of
             (Some stop, c') \<Rightarrow> Inl stop
           | (None, c') \<Rightarrow> Inr c'))"

definition execAddArtwork ::
  "(string \<Rightarrow> Artwork option) \<Rightarrow> Collections \<Rightarrow> string \<Rightarrow> abort + Collections" where
  "execAddArtwork NewArtwork c src =
     (case NewArtwork src of
        None \<Rightarrow> Inl (Exit (Err_CreateResource ''artwork''))
      | Some art \<Rightarrow>
          (case AddArtwork c art of
             (Some stop, c') \<Rightarrow> Inl stop
           | (None, c') \<Rightarrow> Inr c'))"

definition AddCommand_Exec ::
  "(string \<Rightarrow> Track option) \<Rightarrow> (string \<Rightarrow> Artwork option) \<Rightarrow> string \<Rightarrow> string list \<Rightarrow>
     Collections \<Rightarrow> abort + Collections" where
  "AddCommand_Exec NewTrack NewArtwork CollectionName paths c =
     (if CollectionName = ''music'' then
        (if length paths > 0 \<and> paths ! 0 = ''undo'' then
           (if length (Tracks c) = 0 then Inl (Panic (IndexOutOfRange (- 1)))
            else
              (let track = Tracks c ! (length (Tracks c) - 1)
               in if Track_State track \<noteq> Buffered
                  then Inl (Exit (Err_ImmutableResource ''music''))
                  else Inr (c\<lparr>Tracks := take (length (Tracks c) - 1) (Tracks c)\<rparr>)))
         else execAddAll (execAddMusic NewTrack) paths c)
      else if CollectionName = ''art'' then
        (if length paths > 0 \<and> paths ! 0 = ''undo'' then
           (if length (Artwork c) = 0 then Inl (Panic (IndexOutOfRange (- 1)))
            else
              (let art = Artwork c ! (length (Artwork c) - 1)
               in if Artwork_State art \<noteq> Buffered
                  then Inl (Exit (Err_ImmutableResource ''art''))
                  else Inr (c\<lparr>Artwork := take (length (Artwork c) - 1) (Artwork c)\<rparr>)))
         else execAddAll (execAddArtwork NewArtwork) paths c)
      else Inr c)"

section \<open>Example states\<close>

definition track1 :: Track where
  "track1 = \<lparr>Track_Title = ''Song'', Track_By = ''A'', Track_Artists = [''A''],
     Track_Description = [], Track_Path = ''music/a.mp3'', Track_State = Buffered\<rparr>"

definition track2 :: Track where
  "track2 = \<lparr>Track_Title = ''Tune'', Track_By = ''B'', Track_Artists = [''B''],
     Track_Description = [], Track_Path = ''music/b.mp3'', Track_State = Buffered\<rparr>"

text \<open>
  Two tracks were added and indexed, then the newer one was cut off the slice (as the
  undo of the add command does); the index still has both keys.
\<close>

definition truncatedCollections :: Collections where
  "truncatedCollections =
     \<lparr>Tracks = [track1], Artwork = [], Schedule = [], Artists = [],
      Indexes = Mapping.update ''music/b.mp3'' (IsTrack track2)
                  (Mapping.update ''music/a.mp3'' (IsTrack track1) Mapping.empty)\<rparr>"

definition scheduledTrack1 :: Track where
  "scheduledTrack1 = track1\<lparr>Track_State := Scheduled\<rparr>"

definition removedTrack2 :: Track where
  "removedTrack2 = track2\<lparr>Track_State := Removed\<rparr>"

definition art1 :: Artwork where
  "art1 = \<lparr>Artwork_Artist = ''Snatti89'', Artwork_Path = ''art/1.jpg'', Artwork_State = Buffered\<rparr>"

definition scheduledArt1 :: Artwork where
  "scheduledArt1 = art1\<lparr>Artwork_State := Scheduled\<rparr>"

definition placedCollections :: Collections where
  "placedCollections =
     \<lparr>Tracks = [scheduledTrack1, removedTrack2], Artwork = [scheduledArt1], Schedule = [],
      Artists = [], Indexes = Mapping.empty\<rparr>"

text \<open>
  The collections right after loading, with one artist on file, and a track by two
  artists.
\<close>

definition artistA :: Artist where
  "artistA = \<lparr>Artist_Name = ''A'', Artist_Links = [''a.com'']\<rparr>"

definition loadedCollections :: Collections where
  "loadedCollections =
     \<lparr>Tracks = [], Artwork = [], Schedule = [], Artists = [artistA], Indexes = Mapping.empty\<rparr>"

definition duoTrack :: Track where
  "duoTrack = \<lparr>Track_Title = ''Song'', Track_By = ''A & B'', Track_Artists = [''A'', ''B''],
     Track_Description = [], Track_Path = ''music/A & B - Song.mp3'', Track_State = Buffered\<rparr>"

text \<open>
  The default video format of the configuration, and the collections and the builder
  of the repository's test of \<open>VideoBuilder\<close>.
\<close>

definition defaultFormat :: VideoFormat where
  "defaultFormat =
     \<lparr>Format_Title = ''%(by) - %(title)'', Format_Header = ''%(by) - %(title)'',
      Format_ArtworkCredits = ''Artwork by %(artist)'', Format_TrackCredits = ''%(artist)'',
      Format_Link = ''- %(link)'', Format_Footer = []\<rparr>"

definition testCollections :: Collections where
  "testCollections =
     \<lparr>Tracks = [], Artwork = [], Schedule = [],
      Artists = [\<lparr>Artist_Name = ''TrackArtist'', Artist_Links = [''track.com/artist'']\<rparr>,
                 \<lparr>Artist_Name = ''ArtworkArtist'', Artist_Links = [''artwork.com/artist'']\<rparr>],
      Indexes = Mapping.empty\<rparr>"

definition testBuilder :: VideoBuilder where
  "testBuilder =
     \<lparr>Builder_Track = \<lparr>Track_Title = ''Name'', Track_By = ''TrackArtist'',
          Track_Artists = [''TrackArtist''], Track_Description = [], Track_Path = [],
          Track_State = Buffered\<rparr>,
      Builder_Art = \<lparr>Artwork_Artist = ''ArtworkArtist'', Artwork_Path = [],
          Artwork_State = Buffered\<rparr>,
      Builder_Format = defaultFormat, Builder_Extension = []\<rparr>"

text \<open>
  A builder whose link template names the key \<open>url\<close>, which the substitution map of
  a link (\<open>link\<close>) does not bind, for a track with no credited artist.
\<close>

definition urlBuilder :: VideoBuilder where
  "urlBuilder =
     \<lparr>Builder_Track = \<lparr>Track_Title = ''Name'', Track_By = ''Nobody'',
          Track_Artists = [], Track_Description = [], Track_Path = ''music/n.mp3'',
          Track_State = Buffered\<rparr>,
      Builder_Art = \<lparr>Artwork_Artist = ''ArtworkArtist'', Artwork_Path = ''art/a.jpg'',
          Artwork_State = Buffered\<rparr>,
      Builder_Format = defaultFormat\<lparr>Format_Link := ''- %(url)''\<rparr>,
      Builder_Extension = ''.mp4''\<rparr>"

text \<open>
  Times: noon of the day \<open>time.Parse\<close> gives a clock without a date (1 January of
  year 0, UTC); 1 January 2020, 10:00 UTC; and 27 October 2020, 10:00 UTC, 300 days
  later.
\<close>

definition noon :: Time where
  "noon = \<lparr>instant = - 62167176000 * 1000000000, loc = UTC\<rparr>"

definition dailyAtNoon :: ScheduleCommand where
  "dailyAtNoon = \<lparr>UploadFrequency = 1, UploadTimeUTC = ''12:00:00''\<rparr>"

definition newYearMorning :: Time where
  "newYearMorning = \<lparr>instant = 1577872800 * 1000000000, loc = UTC\<rparr>"

definition octoberMorning :: Time where
  "octoberMorning = \<lparr>instant = 1603792800 * 1000000000, loc = UTC\<rparr>"

text \<open>
  An instance of the time functions for the examples: the calendar of package \<open>time\<close>
  (proleptic Gregorian, days of 24 hours) on a machine whose local zone is UTC,
  without the library's range limits, and with a parser that knows the clock
  \<open>12:00:00\<close> only. \<open>daysFromCivil\<close> and \<open>civilFromDays\<close> convert between a calendar
  date and the number of days since 1 January 1970 (through the 400-year era, the day
  and the year of the era, and the day and the month of the year that starts in
  March).
\<close>

definition daysFromCivil :: "int \<Rightarrow> int \<Rightarrow> int \<Rightarrow> int" where
  "daysFromCivil year month day =
     (let y = (if month \<le> 2 then year - 1 else year);
          era = y div 400;
          yoe = y - era * 400;
          mp = (if month > 2 then month - 3 else month + 9);
          doy = (153 * mp + 2) div 5 + day - 1;
          doe = yoe * 365 + yoe div 4 - yoe div 100 + doy
      in era * 146097 + doe - 719468)"

definition civilOfYearDay :: "int \<Rightarrow> int \<Rightarrow> int \<Rightarrow> int \<times> int \<times> int" where
  "civilOfYearDay y doy mp =
     (if mp < 10 then (y, mp + 3, doy - (153 * mp + 2) div 5 + 1)
      else (y + 1, mp - 9, doy - (153 * mp + 2) div 5 + 1))"

definition civilOfYear :: "int \<Rightarrow> int \<Rightarrow> int \<Rightarrow> int \<times> int \<times> int" where
  "civilOfYear era doe yoe =
     civilOfYearDay (yoe + era * 400) (doe - (365 * yoe + yoe div 4 - yoe div 100))
       ((5 * (doe - (365 * yoe + yoe div 4 - yoe div 100)) + 2) div 153)"

definition civilOfEraDay :: "int \<Rightarrow> int \<Rightarrow> int \<times> int \<times> int" where
  "civilOfEraDay era doe =
     civilOfYear era doe ((doe - doe div 1460 + doe div 36524 - doe div 146096) div 365)"

definition civilFromDays :: "int \<Rightarrow> int \<times> int \<times> int" where
  "civilFromDays days =
     civilOfEraDay ((days + 719468) div 146097) ((days + 719468) mod 146097)"

definition zoneOffset :: "Location \<Rightarrow> int" where
  "zoneOffset l = (case l of UTC \<Rightarrow> 0 | Local \<Rightarrow> 0 | FixedZone offset \<Rightarrow> offset)"

definition wallClock :: "Time \<Rightarrow> int" where
  "wallClock t = instant t div 1000000000 + zoneOffset (loc t)"

definition calendarDate ::
  "int \<Rightarrow> int \<Rightarrow> int \<Rightarrow> int \<Rightarrow> int \<Rightarrow> int \<Rightarrow> int \<Rightarrow> Location \<Rightarrow> Time" where
  "calendarDate year month day hour minute sec nsec l =
     \<lparr>instant =
        (daysFromCivil (year + (month - 1) div 12) ((month - 1) mod 12 + 1) day * 86400 +
         hour * 3600 + minute * 60 + sec - zoneOffset l) * 1000000000 + nsec,
      loc = l\<rparr>"

definition utcMachine :: time_pkg where
  "utcMachine =
     \<lparr>time_Parse =
        (\<lambda>layout value.
           if layout = ''15:04:05'' \<and> value = ''12:00:00'' then Some noon else None),
      time_AddDate =
        (\<lambda>t years months days.
           (case civilFromDays (wallClock t div 86400) of
              (y, m, d) \<Rightarrow>
                calendarDate (y + years) (m + months) (d + days) 0 0 (wallClock t mod 86400)
                  (instant t mod 1000000000) (loc t))),
      time_Date = calendarDate,
      time_Year = (\<lambda>t. fst (civilFromDays (wallClock t div 86400))),
      time_Month = (\<lambda>t. fst (snd (civilFromDays (wallClock t div 86400)))),
      time_Day = (\<lambda>t. snd (snd (civilFromDays (wallClock t div 86400)))),
      time_Hour = (\<lambda>t. wallClock t mod 86400 div 3600),
      time_Minute = (\<lambda>t. wallClock t mod 3600 div 60),
      time_Second = (\<lambda>t. wallClock t mod 60)\<rparr>"

definition oldVideo :: Video where
  "oldVideo = \<lparr>Video_Title = ''Old'', Video_Description = [], Video_Path = ''schedule/old.mp4'',
     Video_State = Published, Video_PublishAt = Some newYearMorning, Video_UploadId = None,
     Video_Audio = ''music/a.mp3'', Video_Image = ''art/1.jpg''\<rparr>"

definition newVideo :: Video where
  "newVideo = oldVideo\<lparr>Video_Title := ''New'', Video_Path := ''schedule/new.mp4'',
     Video_State := Scheduled,
     Video_PublishAt := Some octoberMorning\<rparr>"

text \<open>
  A schedule of 257 videos: 256 that were published on 1 January 2020 and, at the
  newest end, one that is scheduled 300 days later.
\<close>

definition longSchedule :: Collections where
  "longSchedule = \<lparr>Tracks = [], Artwork = [], Schedule = replicate 256 oldVideo @ [newVideo],
     Artists = [], Indexes = Mapping.empty\<rparr>"

section \<open>Properties of the index\<close>

lemma keys_fold_indexEntry:
  "Mapping.keys (fold indexEntry es m) = Mapping.keys m \<union> UniqueId ` set es"
  by (induction es arbitrary: m) (auto simp: indexEntry_def)

lemma keys_UpdateIndexes:
  "Mapping.keys (Indexes (UpdateIndexes c)) =
     Mapping.keys (Indexes c) \<union> UniqueId ` set (entities c)"
  by (simp add: UpdateIndexes_def keys_fold_indexEntry)


lemma truncated_mismatch:
  "lengthSum truncatedCollections \<noteq> Mapping.size (Indexes truncatedCollections)"
  by (simp add: truncatedCollections_def lengthSum_def Mapping.size_def)

lemma truncated_entities:
  "UniqueId ` set (entities truncatedCollections) = {''music/a.mp3''}"
  by (simp add: truncatedCollections_def entities_def track1_def)

text \<open>
  C4, as stated, fails: \<open>UpdateIndexes\<close> does not clear the map, so after the rebuild the
  key of a truncated entity is still there. At \<open>truncatedCollections\<close> the lengths sum
  to 1 and the index has 2 keys, \<open>Find\<close> rebuilds, and the key set after it is not the
  set of unique ids of the entities present.
\<close>

theorem Find_rebuild_exact_counterexample:
  "lengthSum truncatedCollections \<noteq> Mapping.size (Indexes truncatedCollections) \<and>
   Mapping.keys (Indexes (snd (Find truncatedCollections ''music/a.mp3''))) \<noteq>
     UniqueId ` set (entities (snd (Find truncatedCollections ''music/a.mp3'')))"
  by (simp add: Find_def truncatedCollections_def lengthSum_def Mapping.size_def
      UpdateIndexes_def entities_def indexEntry_def track1_def track2_def)

text \<open>
  C4, amended: whenever \<open>Find\<close> sees that the four lengths do not sum to the size of the
  index, it repopulates the index from the four collections without clearing it. The
  entities are as before, and the key set after the rebuild is the key set before the
  call together with the unique ids of the entities present: every entity present is
  indexed, and no key is dropped.
\<close>

theorem Find_rebuild_keys:
  assumes "lengthSum c \<noteq> Mapping.size (Indexes c)"
  shows "entities (snd (Find c ident)) = entities c \<and>
         Mapping.keys (Indexes (snd (Find c ident))) =
           Mapping.keys (Indexes c) \<union> UniqueId ` set (entities c)"
  using assms
  by (simp add: Find_def Let_def keys_UpdateIndexes) (simp add: UpdateIndexes_def entities_def)

theorem Find_rebuild_keys_witness:
  "lengthSum truncatedCollections \<noteq> Mapping.size (Indexes truncatedCollections) \<and>
   Mapping.keys (Indexes (snd (Find truncatedCollections ''music/a.mp3''))) =
     {''music/a.mp3'', ''music/b.mp3''}"
  using Find_rebuild_keys [OF truncated_mismatch, of "''music/a.mp3''"] truncated_mismatch
  by (auto simp add: truncated_entities) (simp_all add: truncatedCollections_def)

section \<open>Pairing: what NewSchedule returns\<close>

lemma bufferedTracks_filter:
  "n \<le> length ts \<Longrightarrow>
   bufferedTracks ts n acc = acc @ rev (filter (\<lambda>t. Track_State t = Buffered) (take n ts))"
  by (induction n arbitrary: acc) (simp_all add: take_Suc_conv_app_nth)

lemma bufferedArtwork_filter:
  "n \<le> length as \<Longrightarrow>
   bufferedArtwork as n acc = acc @ rev (filter (\<lambda>a. Artwork_State a = Buffered) (take n as))"
  by (induction n arbitrary: acc) (simp_all add: take_Suc_conv_app_nth)

text \<open>
  C5: with \<open>N\<close> buffered tracks and \<open>M\<close> buffered artwork, \<open>NewSchedule\<close> fails with the
  no-buffered-track error when \<open>N = 0\<close>, with the no-buffered-artwork error when
  \<open>N \<ge> 1\<close> and \<open>M = 0\<close>, and otherwise returns \<open>min N M\<close> pairs: the first \<open>min N M\<close>
  buffered tracks and buffered artwork in reverse collection order (most recently
  added first). In every case the collections after the call are the collections
  before it, so no entity, paired or not, changes state.
\<close>

theorem NewSchedule_pairs:
  "(let tracks = rev (filter (\<lambda>t. Track_State t = Buffered) (Tracks c));
        artwork = rev (filter (\<lambda>a. Artwork_State a = Buffered) (Artwork c));
        N = length tracks; M = length artwork
    in NewSchedule c =
         (if N = 0 then (Inl (errors_New Err_NoBufferedTrack), c)
          else if M = 0 then (Inl (errors_New Err_NoBufferedArtwork), c)
          else (Inr \<lparr>Schedule_Tracks = take (min N M) tracks,
                     Schedule_Artwork = take (min N M) artwork,
                     Schedule_Count = min N M\<rparr>, c)) \<and>
       length (take (min N M) tracks) = min N M \<and>
       length (take (min N M) artwork) = min N M)"
  by (simp add: NewSchedule_def Let_def bufferedTracks_filter bufferedArtwork_filter)

theorem NewSchedule_pairs_witness:
  "NewSchedule placedCollections = (Inl (errors_New Err_NoBufferedTrack), placedCollections) \<and>
   fst (NewSchedule (placedCollections\<lparr>Tracks := [track1, scheduledTrack1, track2], Artwork := [scheduledArt1, art1]\<rparr>)) =
     Inr \<lparr>Schedule_Tracks = [track2], Schedule_Artwork = [art1], Schedule_Count = 1\<rparr>"
  using NewSchedule_pairs [of placedCollections]
    NewSchedule_pairs [of "placedCollections\<lparr>Tracks := [track1, scheduledTrack1, track2], Artwork := [scheduledArt1, art1]\<rparr>"]
  by (simp add: Let_def placedCollections_def scheduledTrack1_def removedTrack2_def track1_def track2_def art1_def scheduledArt1_def)



section \<open>Insertion: immutable, replace in place, append\<close>

lemma Find_Tracks:
  "Tracks (snd (Find c i)) = Tracks c"
  "Artwork (snd (Find c i)) = Artwork c"
  "Schedule (snd (Find c i)) = Schedule c"
  by (simp_all add: Find_def Let_def UpdateIndexes_def)

lemma updateArtists_keeps:
  "Tracks (updateArtists c as) = Tracks c \<and> Artwork (updateArtists c as) = Artwork c \<and>
   Schedule (updateArtists c as) = Schedule c"
proof (induction as arbitrary: c)
  case Nil
  then show ?case by simp
next
  case (Cons a as)
  obtain r c' where f: "Find c (ToLower a) = (r, c')" by (cases "Find c (ToLower a)")
  then have k: "Tracks c' = Tracks c" "Artwork c' = Artwork c" "Schedule c' = Schedule c"
    using Find_Tracks [of c "ToLower a"] by simp_all
  show ?case
  proof (cases r)
    case None
    then show ?thesis using f k Cons.IH by simp
  next
    case (Some e)
    then show ?thesis using f k by simp
  qed
qed

lemma AddTrack_loop_append:
  "(\<forall>j. i \<le> j \<and> j < length ts \<longrightarrow> Track_Path (ts ! j) \<noteq> Track_Path track) \<Longrightarrow>
   AddTrack_loop ts i track = Inr (ts @ [track])"
proof (induction ts i track rule: AddTrack_loop.induct)
  case (1 ts i track)
  show ?case
  proof (cases "i < length ts")
    case True
    then have ne: "Track_Path (ts ! i) \<noteq> Track_Path track" using "1.prems" by simp
    have "AddTrack_loop ts (i + 1) track = Inr (ts @ [track])"
      using "1.IH" [OF True ne] "1.prems" by simp
    then show ?thesis using True ne by simp
  next
    case False
    then show ?thesis by simp
  qed
qed

lemma AddTrack_loop_first:
  "i \<le> k \<Longrightarrow> k < length ts \<Longrightarrow> Track_Path (ts ! k) = Track_Path track \<Longrightarrow>
   (\<forall>j. i \<le> j \<and> j < k \<longrightarrow> Track_Path (ts ! j) \<noteq> Track_Path track) \<Longrightarrow>
   AddTrack_loop ts i track =
     (if Track_State (ts ! k) \<noteq> Track_State track \<and> Track_State (ts ! k) \<noteq> Removed
      then Inl (Exit (Err_ImmutableResource ''music'')) else Inr (ts[k := track]))"
proof (induction ts i track rule: AddTrack_loop.induct)
  case (1 ts i track)
  have il: "i < length ts" using "1.prems" by simp
  show ?case
  proof (cases "i = k")
    case True
    then show ?thesis using "1.prems" by simp
  next
    case False
    then have lt: "i < k" using "1.prems" by simp
    then have ne: "Track_Path (ts ! i) \<noteq> Track_Path track" using "1.prems" by simp
    have "AddTrack_loop ts (i + 1) track =
      (if Track_State (ts ! k) \<noteq> Track_State track \<and> Track_State (ts ! k) \<noteq> Removed
      then Inl (Exit (Err_ImmutableResource ''music'')) else Inr (ts[k := track]))"
      using "1.IH" [OF il ne] lt "1.prems" by simp
    then show ?thesis using il ne by simp
  qed
qed

lemma AddArtwork_loop_append:
  "(\<forall>j. i \<le> j \<and> j < length as \<longrightarrow> Artwork_Path (as ! j) \<noteq> Artwork_Path artwork) \<Longrightarrow>
   AddArtwork_loop as i artwork = Inr (as @ [artwork])"
proof (induction as i artwork rule: AddArtwork_loop.induct)
  case (1 as i artwork)
  show ?case
  proof (cases "i < length as")
    case True
    then have ne: "Artwork_Path (as ! i) \<noteq> Artwork_Path artwork" using "1.prems" by simp
    have "AddArtwork_loop as (i + 1) artwork = Inr (as @ [artwork])"
      using "1.IH" [OF True ne] "1.prems" by simp
    then show ?thesis using True ne by simp
  next
    case False
    then show ?thesis by simp
  qed
qed

lemma AddArtwork_loop_first:
  "i \<le> k \<Longrightarrow> k < length as \<Longrightarrow> Artwork_Path (as ! k) = Artwork_Path artwork \<Longrightarrow>
   (\<forall>j. i \<le> j \<and> j < k \<longrightarrow> Artwork_Path (as ! j) \<noteq> Artwork_Path artwork) \<Longrightarrow>
   AddArtwork_loop as i artwork =
     (if Artwork_State (as ! k) \<noteq> Artwork_State artwork \<and> Artwork_State (as ! k) \<noteq> Removed
      then Inl (Exit (Err_ImmutableResource ''art'')) else Inr (as[k := artwork]))"
proof (induction as i artwork rule: AddArtwork_loop.induct)
  case (1 as i artwork)
  have il: "i < length as" using "1.prems" by simp
  show ?case
  proof (cases "i = k")
    case True
    then show ?thesis using "1.prems" by simp
  next
    case False
    then have lt: "i < k" using "1.prems" by simp
    then have ne: "Artwork_Path (as ! i) \<noteq> Artwork_Path artwork" using "1.prems" by simp
    have "AddArtwork_loop as (i + 1) artwork =
      (if Artwork_State (as ! k) \<noteq> Artwork_State artwork \<and> Artwork_State (as ! k) \<noteq> Removed
      then Inl (Exit (Err_ImmutableResource ''art'')) else Inr (as[k := artwork]))"
      using "1.IH" [OF il ne] lt "1.prems" by simp
    then show ?thesis using il ne by simp
  qed
qed


text \<open>
  C6: \<open>AddTrack\<close> and \<open>AddArtwork\<close> look for the entity with the new entity's unique id
  (the first one in slice order; unique ids are unique within a collection, so it is
  the only one). If it is at slot \<open>k\<close> and its state differs from the new entity's
  state and is not \<open>Removed\<close>, the call ends with the immutable-resource error and the
  slice is as before; if its state is the new entity's state or \<open>Removed\<close>, the new
  entity takes slot \<open>k\<close> and every other slot is as before; if no entity has that id,
  the new entity is appended at the end. (The artist collection and the index are
  not part of the statement: \<open>updateArtists\<close> runs before the scan in every case.)
\<close>

theorem Add_immutable_replace_append:
  "(\<forall>k. k < length (Tracks c) \<and> Track_Path (Tracks c ! k) = Track_Path track \<and>
        (\<forall>j. j < k \<longrightarrow> Track_Path (Tracks c ! j) \<noteq> Track_Path track) \<longrightarrow>
        (if Track_State (Tracks c ! k) \<noteq> Track_State track \<and>
            Track_State (Tracks c ! k) \<noteq> Removed
         then fst (AddTrack c track) = Some (Exit (Err_ImmutableResource ''music'')) \<and>
              Tracks (snd (AddTrack c track)) = Tracks c
         else fst (AddTrack c track) = None \<and>
              Tracks (snd (AddTrack c track)) = (Tracks c)[k := track])) \<and>
   ((\<forall>j. j < length (Tracks c) \<longrightarrow> Track_Path (Tracks c ! j) \<noteq> Track_Path track) \<longrightarrow>
        fst (AddTrack c track) = None \<and>
        Tracks (snd (AddTrack c track)) = Tracks c @ [track]) \<and>
   (\<forall>k. k < length (Artwork c) \<and> Artwork_Path (Artwork c ! k) = Artwork_Path artwork \<and>
        (\<forall>j. j < k \<longrightarrow> Artwork_Path (Artwork c ! j) \<noteq> Artwork_Path artwork) \<longrightarrow>
        (if Artwork_State (Artwork c ! k) \<noteq> Artwork_State artwork \<and>
            Artwork_State (Artwork c ! k) \<noteq> Removed
         then fst (AddArtwork c artwork) = Some (Exit (Err_ImmutableResource ''art'')) \<and>
              Artwork (snd (AddArtwork c artwork)) = Artwork c
         else fst (AddArtwork c artwork) = None \<and>
              Artwork (snd (AddArtwork c artwork)) = (Artwork c)[k := artwork])) \<and>
   ((\<forall>j. j < length (Artwork c) \<longrightarrow> Artwork_Path (Artwork c ! j) \<noteq> Artwork_Path artwork) \<longrightarrow>
        fst (AddArtwork c artwork) = None \<and>
        Artwork (snd (AddArtwork c artwork)) = Artwork c @ [artwork])"
proof (intro conjI allI impI)
  fix k
  assume h: "k < length (Tracks c) \<and> Track_Path (Tracks c ! k) = Track_Path track \<and>
        (\<forall>j. j < k \<longrightarrow> Track_Path (Tracks c ! j) \<noteq> Track_Path track)"
  let ?c1 = "updateArtists c (Track_Artists track)"
  have ts: "Tracks ?c1 = Tracks c" by (simp add: updateArtists_keeps)
  have "AddTrack_loop (Tracks c) 0 track =
     (if Track_State (Tracks c ! k) \<noteq> Track_State track \<and> Track_State (Tracks c ! k) \<noteq> Removed
      then Inl (Exit (Err_ImmutableResource ''music'')) else Inr ((Tracks c)[k := track]))"
    using h by (intro AddTrack_loop_first) simp_all
  then show "if Track_State (Tracks c ! k) \<noteq> Track_State track \<and>
            Track_State (Tracks c ! k) \<noteq> Removed
         then fst (AddTrack c track) = Some (Exit (Err_ImmutableResource ''music'')) \<and>
              Tracks (snd (AddTrack c track)) = Tracks c
         else fst (AddTrack c track) = None \<and>
              Tracks (snd (AddTrack c track)) = (Tracks c)[k := track]"
    using ts by (simp add: AddTrack_def Let_def del: AddTrack_loop.simps)
next
  assume h: "\<forall>j. j < length (Tracks c) \<longrightarrow> Track_Path (Tracks c ! j) \<noteq> Track_Path track"
  let ?c1 = "updateArtists c (Track_Artists track)"
  have ts: "Tracks ?c1 = Tracks c" by (simp add: updateArtists_keeps)
  have l: "AddTrack_loop (Tracks c) 0 track = Inr (Tracks c @ [track])"
    using h by (intro AddTrack_loop_append) simp
  show "fst (AddTrack c track) = None" using ts l
    by (simp add: AddTrack_def Let_def del: AddTrack_loop.simps)
  show "Tracks (snd (AddTrack c track)) = Tracks c @ [track]" using ts l
    by (simp add: AddTrack_def Let_def del: AddTrack_loop.simps)
next
  fix k
  assume h: "k < length (Artwork c) \<and> Artwork_Path (Artwork c ! k) = Artwork_Path artwork \<and>
        (\<forall>j. j < k \<longrightarrow> Artwork_Path (Artwork c ! j) \<noteq> Artwork_Path artwork)"
  let ?c1 = "updateArtists c [Artwork_Artist artwork]"
  have ts: "Artwork ?c1 = Artwork c" using updateArtists_keeps by blast
  have "AddArtwork_loop (Artwork c) 0 artwork =
     (if Artwork_State (Artwork c ! k) \<noteq> Artwork_State artwork \<and> Artwork_State (Artwork c ! k) \<noteq> Removed
      then Inl (Exit (Err_ImmutableResource ''art'')) else Inr ((Artwork c)[k := artwork]))"
    using h by (intro AddArtwork_loop_first) simp_all
  then show "if Artwork_State (Artwork c ! k) \<noteq> Artwork_State artwork \<and>
            Artwork_State (Artwork c ! k) \<noteq> Removed
         then fst (AddArtwork c artwork) = Some (Exit (Err_ImmutableResource ''art'')) \<and>
              Artwork (snd (AddArtwork c artwork)) = Artwork c
         else fst (AddArtwork c artwork) = None \<and>
              Artwork (snd (AddArtwork c artwork)) = (Artwork c)[k := artwork]"
    using ts by (simp add: AddArtwork_def Let_def del: AddArtwork_loop.simps updateArtists.simps)
next
  assume h: "\<forall>j. j < length (Artwork c) \<longrightarrow> Artwork_Path (Artwork c ! j) \<noteq> Artwork_Path artwork"
  let ?c1 = "updateArtists c [Artwork_Artist artwork]"
  have ts: "Artwork ?c1 = Artwork c" using updateArtists_keeps by blast
  have l: "AddArtwork_loop (Artwork c) 0 artwork = Inr (Artwork c @ [artwork])"
    using h by (intro AddArtwork_loop_append) simp
  show "fst (AddArtwork c artwork) = None" using ts l
    by (simp add: AddArtwork_def Let_def del: AddArtwork_loop.simps updateArtists.simps)
  show "Artwork (snd (AddArtwork c artwork)) = Artwork c @ [artwork]" using ts l
    by (simp add: AddArtwork_def Let_def del: AddArtwork_loop.simps updateArtists.simps)
qed

theorem Add_immutable_replace_append_witness:
  "fst (AddTrack placedCollections track1) = Some (Exit (Err_ImmutableResource ''music'')) \<and>
   Tracks (snd (AddTrack placedCollections track1)) = [scheduledTrack1, removedTrack2] \<and>
   fst (AddTrack placedCollections track2) = None \<and>
   Tracks (snd (AddTrack placedCollections track2)) = [scheduledTrack1, track2] \<and>
   fst (AddArtwork placedCollections art1) = Some (Exit (Err_ImmutableResource ''art'')) \<and>
   Artwork (snd (AddArtwork placedCollections art1)) = [scheduledArt1]"
proof -
  have a: "0 < length (Tracks placedCollections) \<and>
      Track_Path (Tracks placedCollections ! 0) = Track_Path track1 \<and>
      (\<forall>j. j < (0::nat) \<longrightarrow> Track_Path (Tracks placedCollections ! j) \<noteq> Track_Path track1)"
    by (simp add: placedCollections_def scheduledTrack1_def)
  have b: "1 < length (Tracks placedCollections) \<and>
      Track_Path (Tracks placedCollections ! 1) = Track_Path track2 \<and>
      (\<forall>j. j < (1::nat) \<longrightarrow> Track_Path (Tracks placedCollections ! j) \<noteq> Track_Path track2)"
    by (simp add: placedCollections_def scheduledTrack1_def removedTrack2_def track1_def track2_def)
  have c: "0 < length (Artwork placedCollections) \<and>
      Artwork_Path (Artwork placedCollections ! 0) = Artwork_Path art1 \<and>
      (\<forall>j. j < (0::nat) \<longrightarrow> Artwork_Path (Artwork placedCollections ! j) \<noteq> Artwork_Path art1)"
    by (simp add: placedCollections_def scheduledArt1_def)
  have ta: "Track_State (Tracks placedCollections ! 0) \<noteq> Track_State track1 \<and>
      Track_State (Tracks placedCollections ! 0) \<noteq> Removed"
    by (simp add: placedCollections_def scheduledTrack1_def track1_def)
  have tb: "Track_State (Tracks placedCollections ! 1) = Removed"
    by (simp add: placedCollections_def removedTrack2_def)
  have tc: "Artwork_State (Artwork placedCollections ! 0) \<noteq> Artwork_State art1 \<and>
      Artwork_State (Artwork placedCollections ! 0) \<noteq> Removed"
    by (simp add: placedCollections_def scheduledArt1_def art1_def)
  note t1 = Add_immutable_replace_append [of placedCollections track1 art1]
  note t2 = Add_immutable_replace_append [of placedCollections track2 art1]
  have r1: "fst (AddTrack placedCollections track1) = Some (Exit (Err_ImmutableResource ''music'')) \<and>
      Tracks (snd (AddTrack placedCollections track1)) = Tracks placedCollections"
    using t1 a ta by (metis (no_types, lifting))
  have r2: "fst (AddTrack placedCollections track2) = None \<and>
      Tracks (snd (AddTrack placedCollections track2)) = (Tracks placedCollections)[1 := track2]"
    using t2 b tb by (metis (no_types, lifting))
  have r3: "fst (AddArtwork placedCollections art1) = Some (Exit (Err_ImmutableResource ''art'')) \<and>
      Artwork (snd (AddArtwork placedCollections art1)) = Artwork placedCollections"
    using t1 c tc by (metis (no_types, lifting))
  show ?thesis using r1 r2 r3 by (simp add: placedCollections_def)
qed

section \<open>Template substitution: properties\<close>

declare buildTemplate_loop.simps [simp del]

lemma IndexByte_absent: "c \<notin> set s \<Longrightarrow> IndexByte s c = - 1"
  by (simp add: IndexByte_def)

lemma IndexByte_present:
  "c \<in> set s \<Longrightarrow> IndexByte s c = int (length (takeWhile (\<lambda>x. x \<noteq> c) s))"
  by (simp add: IndexByte_def)

lemma loop_done: "\<not> i < length f \<Longrightarrow> buildTemplate_loop f T i b = Inr (b, None)"
  by (subst buildTemplate_loop.simps) simp

lemma loop_lit:
  "i < length f \<Longrightarrow> \<not> (nextByte f i = Some (CHR ''('') \<and> f ! i = CHR ''%'') \<Longrightarrow>
   buildTemplate_loop f T i b = buildTemplate_loop f T (i + 1) (b @ [f ! i])"
  by (subst buildTemplate_loop.simps) (auto simp add: Let_def)

lemma loop_panic:
  "i < length f \<Longrightarrow> nextByte f i = Some (CHR ''('') \<and> f ! i = CHR ''%'' \<Longrightarrow>
   CHR '')'' \<notin> set (drop (i + 2) f) \<Longrightarrow>
   buildTemplate_loop f T i b = Inl (SliceBounds (i + 2) (int (i + 2) - 1))"
  by (subst buildTemplate_loop.simps) (simp add: Let_def IndexByte_absent)

lemma loop_key:
  "i < length f \<Longrightarrow> nextByte f i = Some (CHR ''('') \<and> f ! i = CHR ''%'' \<Longrightarrow>
   CHR '')'' \<in> set (drop (i + 2) f) \<Longrightarrow>
   buildTemplate_loop f T i b =
     (case T (keyAt f i) of
        None \<Rightarrow> Inr (f, Some (errors_New (invalidKey (keyAt f i) f)))
      | Some v \<Rightarrow> buildTemplate_loop f T (i + 2 + length (keyAt f i) + 1) (b @ v))"
  apply (subst buildTemplate_loop.simps)
  apply (simp add: Let_def IndexByte_present keyAt_def nat_add_distrib
      takeWhile_eq_take [symmetric] add.commute split: option.split)
  done

lemma keyAt_close:
  assumes "CHR '')'' \<in> set (drop (i + 2) f)"
  shows "i + 2 + length (keyAt f i) < length f \<and> f ! (i + 2 + length (keyAt f i)) = CHR '')''"
proof -
  let ?xs = "drop (i + 2) f"
  let ?tw = "takeWhile (\<lambda>x. x \<noteq> CHR '')'') ?xs"
  have ne: "?tw \<noteq> ?xs"
    using assms by (auto simp: takeWhile_eq_all_conv)
  have "length ?tw \<noteq> length ?xs"
  proof
    assume eq: "length ?tw = length ?xs"
    have "?tw = take (length ?tw) ?xs" by (rule takeWhile_eq_take)
    then have "?tw = ?xs" using eq by simp
    then show False using ne by simp
  qed
  moreover have "length ?tw \<le> length ?xs" by (rule length_takeWhile_le)
  ultimately have lt: "length ?tw < length ?xs" by simp
  then have "\<not> (?xs ! length ?tw \<noteq> CHR '')'')" by (rule nth_length_takeWhile)
  then have "?xs ! length ?tw = CHR '')''" by simp
  moreover have "?xs ! length ?tw = f ! (i + 2 + length ?tw)" using lt by simp
  ultimately show ?thesis using lt by (simp add: keyAt_def)
qed

lemma in_drop_nth:
  assumes "j \<le> k" "k < length f"
  shows "f ! k \<in> set (drop j f)"
proof -
  have "k - j < length (drop j f)" using assms by simp
  then have "drop j f ! (k - j) \<in> set (drop j f)" by (rule nth_mem)
  moreover have "drop j f ! (k - j) = f ! k" using assms by simp
  ultimately show ?thesis by simp
qed

lemma unclosed_loop:
  assumes p: "p + 1 < length f" "f ! p = CHR ''%''" "f ! (p + 1) = CHR ''(''"
      "CHR '')'' \<notin> set (drop (p + 2) f)"
  shows "i \<le> p \<Longrightarrow>
    (\<exists>j. buildTemplate_loop f T i b = Inl (SliceBounds j (int j - 1))) \<or>
    (\<exists>key. T key = None \<and>
       buildTemplate_loop f T i b = Inr (f, Some (errors_New (invalidKey key f))))"
proof (induction "p - i" arbitrary: i b rule: less_induct)
  case less
  have il: "i < length f" using p less.prems by simp
  show ?case
  proof (cases "nextByte f i = Some (CHR ''('') \<and> f ! i = CHR ''%''")
    case False
    then have "i \<noteq> p" using p by (auto simp: nextByte_def)
    then have a: "p - (i + 1) < p - i" and b: "i + 1 \<le> p" using less.prems by simp_all
    show ?thesis using less.hyps [OF a b] loop_lit [OF il False] by simp
  next
    case True
    show ?thesis
    proof (cases "CHR '')'' \<in> set (drop (i + 2) f)")
      case False
      then show ?thesis using loop_panic [OF il True False] by blast
    next
      case c: True
      let ?e = "i + 2 + length (keyAt f i)"
      have e: "?e < length f" "f ! ?e = CHR '')''" using keyAt_close [OF c] by simp_all
      have "\<not> p + 2 \<le> ?e" using in_drop_nth [of "p + 2" ?e f] e p(4) by auto
      moreover have "?e \<noteq> p" using e p(2) by auto
      moreover have "?e \<noteq> p + 1" using e p(3) by auto
      ultimately have ep: "?e + 1 \<le> p" by simp
      show ?thesis
      proof (cases "T (keyAt f i)")
        case None
        then show ?thesis using loop_key [OF il True c] by auto
      next
        case (Some v)
        have a: "p - (?e + 1) < p - i" using ep by simp
        show ?thesis using less.hyps [OF a ep] loop_key [OF il True c] Some by simp
      qed
    qed
  qed
qed

lemma panic_loop:
  "buildTemplate_loop f T i b = Inl q \<Longrightarrow>
   \<exists>j. i + 2 \<le> j \<and> j \<le> length f \<and> q = SliceBounds j (int j - 1) \<and>
       f ! (j - 2) = CHR ''%'' \<and> f ! (j - 1) = CHR ''('' \<and> CHR '')'' \<notin> set (drop j f)"
proof (induction "length f - i" arbitrary: i b rule: less_induct)
  case less
  show ?case
  proof (cases "i < length f")
    case False
    then show ?thesis using less.prems loop_done [OF False] by simp
  next
    case il: True
    show ?thesis
    proof (cases "nextByte f i = Some (CHR ''('') \<and> f ! i = CHR ''%''")
      case False
      have a: "length f - (i + 1) < length f - i" using il by simp
      have "buildTemplate_loop f T (i + 1) (b @ [f ! i]) = Inl q"
        using less.prems loop_lit [OF il False] by simp
      from less.hyps [OF a this] show ?thesis by auto
    next
      case True
      then have n: "i + 1 < length f" "f ! (i + 1) = CHR ''(''" "f ! i = CHR ''%''"
        by (auto simp: nextByte_def split: if_splits)
      show ?thesis
      proof (cases "CHR '')'' \<in> set (drop (i + 2) f)")
        case False
        have "q = SliceBounds (i + 2) (int (i + 2) - 1)"
          using less.prems loop_panic [OF il True False] by simp
        then show ?thesis using n False by (intro exI [of _ "i + 2"]) simp
      next
        case c: True
        let ?e = "i + 2 + length (keyAt f i)"
        have e: "?e < length f" using keyAt_close [OF c] by simp
        show ?thesis
        proof (cases "T (keyAt f i)")
          case None
          then show ?thesis using less.prems loop_key [OF il True c] by simp
        next
          case (Some v)
          have a: "length f - (?e + 1) < length f - i" using e by simp
          have "buildTemplate_loop f T (?e + 1) (b @ v) = Inl q"
            using less.prems loop_key [OF il True c] Some by simp
          from less.hyps [OF a this] show ?thesis by auto
        qed
      qed
    qed
  qed
qed

lemma prefix_loop:
  assumes r: "rest = [] \<or> hd rest \<noteq> CHR ''(''"
  shows "i \<le> length pre \<Longrightarrow> buildTemplate_loop pre T i b = Inr (out, None) \<Longrightarrow>
    buildTemplate_loop (pre @ rest) T i b = buildTemplate_loop (pre @ rest) T (length pre) out"
proof (induction "length pre - i" arbitrary: i b rule: less_induct)
  case less
  show ?case
  proof (cases "i < length pre")
    case False
    then have "i = length pre" using less.prems by simp
    then show ?thesis using less.prems loop_done [OF False] by simp
  next
    case il: True
    then have il': "i < length (pre @ rest)" by simp
    have tok: "(pre @ rest) ! i = pre ! i" using il by (simp add: nth_append)
    show ?thesis
    proof (cases "nextByte pre i = Some (CHR ''('') \<and> pre ! i = CHR ''%''")
      case False
      have "nextByte (pre @ rest) i = Some (CHR ''('') \<Longrightarrow> nextByte pre i = Some (CHR ''('')"
        using r il by (cases rest) (auto simp: nextByte_def nth_append split: if_splits)
      then have F': "\<not> (nextByte (pre @ rest) i = Some (CHR ''('') \<and> (pre @ rest) ! i = CHR ''%'')"
        using False tok by auto
      have a: "length pre - (i + 1) < length pre - i" and b: "i + 1 \<le> length pre"
        using il by simp_all
      have "buildTemplate_loop pre T (i + 1) (b @ [pre ! i]) = Inr (out, None)"
        using less.prems loop_lit [OF il False] by simp
      from less.hyps [OF a b this] show ?thesis using loop_lit [OF il' F'] tok by simp
    next
      case True
      then have n: "i + 1 < length pre" by (auto simp: nextByte_def split: if_splits)
      then have T': "nextByte (pre @ rest) i = Some (CHR ''('') \<and> (pre @ rest) ! i = CHR ''%''"
        using True tok by (auto simp: nextByte_def nth_append split: if_splits)
      have c: "CHR '')'' \<in> set (drop (i + 2) pre)"
      proof (rule ccontr)
        assume "\<not> ?thesis"
        then show False using less.prems loop_panic [OF il True] by simp
      qed
      then have c': "CHR '')'' \<in> set (drop (i + 2) (pre @ rest))" by auto
      have k: "keyAt (pre @ rest) i = keyAt pre i"
        using c by (simp add: keyAt_def takeWhile_append1 [of "CHR '')''"])
      let ?e = "i + 2 + length (keyAt pre i)"
      have e: "?e < length pre" using keyAt_close [OF c] by simp
      show ?thesis
      proof (cases "T (keyAt pre i)")
        case None
        then show ?thesis using less.prems loop_key [OF il True c] by simp
      next
        case (Some v)
        have a: "length pre - (?e + 1) < length pre - i" and b: "?e + 1 \<le> length pre"
          using e il by simp_all
        have "buildTemplate_loop pre T (?e + 1) (b @ v) = Inr (out, None)"
          using less.prems loop_key [OF il True c] Some by simp
        from less.hyps [OF a b this] show ?thesis
          using loop_key [OF il' T' c'] k Some by simp
      qed
    qed
  qed
qed

lemma suffix_loop:
  "buildTemplate_loop post T i b = Inr (s, None) \<Longrightarrow>
   buildTemplate_loop (pre @ post) T (length pre + i) (out @ b) = Inr (out @ s, None)"
proof (induction "length post - i" arbitrary: i b rule: less_induct)
  case less
  show ?case
  proof (cases "i < length post")
    case False
    then have "\<not> length pre + i < length (pre @ post)" by simp
    then show ?thesis using less.prems loop_done [OF False] loop_done by simp
  next
    case il: True
    then have il': "length pre + i < length (pre @ post)" by simp
    have tok: "(pre @ post) ! (length pre + i) = post ! i" by simp
    have nb: "nextByte (pre @ post) (length pre + i) = nextByte post i"
      by (simp add: nextByte_def nth_append)
    have dr: "drop (length pre + i + 2) (pre @ post) = drop (i + 2) post" by simp
    show ?thesis
    proof (cases "nextByte post i = Some (CHR ''('') \<and> post ! i = CHR ''%''")
      case False
      then have F': "\<not> (nextByte (pre @ post) (length pre + i) = Some (CHR ''('') \<and>
          (pre @ post) ! (length pre + i) = CHR ''%'')" using nb tok by simp
      have a: "length post - (i + 1) < length post - i" using il by simp
      have "buildTemplate_loop post T (i + 1) (b @ [post ! i]) = Inr (s, None)"
        using less.prems loop_lit [OF il False] by simp
      from less.hyps [OF a this] show ?thesis using loop_lit [OF il' F'] tok
        by (simp add: add.assoc)
    next
      case True
      then have T': "nextByte (pre @ post) (length pre + i) = Some (CHR ''('') \<and>
          (pre @ post) ! (length pre + i) = CHR ''%''" using nb tok by simp
      have c: "CHR '')'' \<in> set (drop (i + 2) post)"
      proof (rule ccontr)
        assume "\<not> ?thesis"
        then show False using less.prems loop_panic [OF il True] by simp
      qed
      then have c': "CHR '')'' \<in> set (drop (length pre + i + 2) (pre @ post))"
        using dr by simp
      have k: "keyAt (pre @ post) (length pre + i) = keyAt post i"
        using dr by (simp add: keyAt_def)
      let ?e = "i + 2 + length (keyAt post i)"
      have e: "?e < length post" using keyAt_close [OF c] by simp
      show ?thesis
      proof (cases "T (keyAt post i)")
        case None
        then show ?thesis using less.prems loop_key [OF il True c] by simp
      next
        case (Some v)
        have a: "length post - (?e + 1) < length post - i" using e il by simp
        have "buildTemplate_loop post T (?e + 1) (b @ v) = Inr (s, None)"
          using less.prems loop_key [OF il True c] Some by simp
        from less.hyps [OF a this] show ?thesis
          using loop_key [OF il' T' c'] k Some by (simp add: add.assoc)
      qed
    qed
  qed
qed


lemma placeholder_at:
  "nextByte (pre @ ''%('' @ key @ rest) (length pre) = Some (CHR ''('') \<and>
   (pre @ ''%('' @ key @ rest) ! (length pre) = CHR ''%''"
  by (simp add: nextByte_def nth_append)

lemma keyAt_here:
  "CHR '')'' \<notin> set key \<Longrightarrow> keyAt (pre @ ''%('' @ key @ '')'' @ post) (length pre) = key"
  by (auto simp add: keyAt_def takeWhile_tail)

text \<open>
  C8: template substitution. (1) For a key \<open>k\<close> (a key is the text up to the next \<open>)\<close>,
  so it has no \<open>)\<close>) that the map binds to \<open>v\<close>, the template \<open>%(k)\<close> yields \<open>v\<close>.
  (2) A placeholder whose key the map does not bind, behind text that resolves, makes
  \<open>buildTemplate\<close> return an error, and the message of the error is
  \<open>invalid key 'KEY' in 'TEMPLATE'\<close> with that exact key and the whole template string
  (the byte \<open>0x27\<close> is the single quote). (3) A \<open>%\<close> that is not followed by \<open>(\<close> goes
  to the output as it is, between the outputs of the text before and the text behind
  it. (4) \<open>%(a)c)\<close> yields the value of \<open>a\<close> followed by the literal \<open>c)\<close>.
\<close>

theorem buildTemplate_substitution:
  "(CHR '')'' \<notin> set k \<and> T k = Some v \<longrightarrow>
      buildTemplate (''%('' @ k @ '')'') T = Inr (v, None)) \<and>
   (buildTemplate pre T = Inr (o1, None) \<and> CHR '')'' \<notin> set key \<and> T key = None \<longrightarrow>
      buildTemplate (pre @ ''%('' @ key @ '')'' @ post) T =
        Inr (pre @ ''%('' @ key @ '')'' @ post,
             Some (errors_New
               (''invalid key '' @ [CHR 0x27] @ key @ [CHR 0x27] @ '' in '' @ [CHR 0x27] @
                (pre @ ''%('' @ key @ '')'' @ post) @ [CHR 0x27])))) \<and>
   (buildTemplate pre T = Inr (o1, None) \<and> buildTemplate post T = Inr (o2, None) \<and>
    (post = [] \<or> hd post \<noteq> CHR ''('') \<longrightarrow>
      buildTemplate (pre @ ''%'' @ post) T = Inr (o1 @ ''%'' @ o2, None)) \<and>
   (T ''a'' = Some v \<longrightarrow> buildTemplate ''%(a)c)'' T = Inr (v @ ''c)'', None))"
proof (intro conjI impI)
  assume h: "CHR '')'' \<notin> set k \<and> T k = Some v"
  let ?f = "[] @ ''%('' @ k @ '')'' @ []"
  have il: "0 < length ?f" by simp
  have c: "CHR '')'' \<in> set (drop (0 + 2) ?f)" by simp
  have k: "keyAt ?f 0 = k" using keyAt_here [of k "[]" "[]"] h by simp
  have p: "nextByte ?f 0 = Some (CHR ''('') \<and> ?f ! 0 = CHR ''%''"
    using placeholder_at [of "[]" k "'')''"] by simp
  have "buildTemplate_loop ?f T 0 [] = buildTemplate_loop ?f T (0 + 2 + length k + 1) ([] @ v)"
    using loop_key [OF il p c, of T "[]"] k h by simp
  also have "\<dots> = Inr (v, None)" by (simp add: loop_done)
  finally show "buildTemplate (''%('' @ k @ '')'') T = Inr (v, None)"
    by (simp add: buildTemplate_def)
next
  assume h: "buildTemplate pre T = Inr (o1, None) \<and> CHR '')'' \<notin> set key \<and> T key = None"
  let ?f = "pre @ ''%('' @ key @ '')'' @ post"
  have il: "length pre < length ?f" by simp
  have c: "CHR '')'' \<in> set (drop (length pre + 2) ?f)" by simp
  have k: "keyAt ?f (length pre) = key" using keyAt_here h by simp
  have p: "nextByte ?f (length pre) = Some (CHR ''('') \<and> ?f ! (length pre) = CHR ''%''"
    using placeholder_at [of pre key "'')'' @ post"] by simp
  have r: "''%('' @ key @ '')'' @ post = [] \<or> hd (''%('' @ key @ '')'' @ post) \<noteq> CHR ''(''"
    by simp
  have "buildTemplate_loop ?f T 0 [] = buildTemplate_loop ?f T (length pre) o1"
    using prefix_loop [OF r, of 0 pre T "[]" o1] h by (simp add: buildTemplate_def)
  also have "\<dots> = Inr (?f, Some (errors_New (invalidKey key ?f)))"
    using loop_key [OF il p c, of T o1] k h by simp
  finally show "buildTemplate ?f T =
      Inr (?f, Some (errors_New
        (''invalid key '' @ [CHR 0x27] @ key @ [CHR 0x27] @ '' in '' @ [CHR 0x27] @ ?f @
         [CHR 0x27])))"
    by (simp add: buildTemplate_def invalidKey_def)
next
  assume h: "buildTemplate pre T = Inr (o1, None) \<and> buildTemplate post T = Inr (o2, None) \<and>
    (post = [] \<or> hd post \<noteq> CHR ''('')"
  let ?f = "pre @ ''%'' @ post"
  have il: "length pre < length ?f" by simp
  have r: "''%'' @ post = [] \<or> hd (''%'' @ post) \<noteq> CHR ''(''" by simp
  have lit: "\<not> (nextByte ?f (length pre) = Some (CHR ''('') \<and> ?f ! (length pre) = CHR ''%'')"
    using h by (cases post) (auto simp: nextByte_def nth_append)
  have "buildTemplate_loop ?f T 0 [] = buildTemplate_loop ?f T (length pre) o1"
    using prefix_loop [OF r, of 0 pre T "[]" o1] h by (simp add: buildTemplate_def)
  also have "\<dots> = buildTemplate_loop ?f T (length pre + 1) (o1 @ ''%'')"
    using loop_lit [OF il lit, of T o1] by simp
  also have "\<dots> = Inr (o1 @ ''%'' @ o2, None)"
    using suffix_loop [of post T 0 "[]" o2 "pre @ ''%''" "o1 @ ''%''"] h
    by (simp add: buildTemplate_def)
  finally show "buildTemplate ?f T = Inr (o1 @ ''%'' @ o2, None)"
    by (simp add: buildTemplate_def)
next
  assume h: "T ''a'' = Some v"
  then show "buildTemplate ''%(a)c)'' T = Inr (v @ ''c)'', None)"
    by (simp add: buildTemplate_def buildTemplate_loop.simps nextByte_def IndexByte_def Let_def)
qed

theorem buildTemplate_substitution_witness:
  "buildTemplate ''%(by)'' [''by'' \<mapsto> ''A''] = Inr (''A'', None) \<and>
   buildTemplate ''50%(title)!'' [''by'' \<mapsto> ''A''] =
     Inr (''50%(title)!'',
          Some (errors_New (''invalid key '' @ [CHR 0x27] @ ''title'' @ [CHR 0x27] @ '' in '' @
                            [CHR 0x27] @ ''50%(title)!'' @ [CHR 0x27]))) \<and>
   buildTemplate ''100% %(by)'' [''by'' \<mapsto> ''A''] = Inr (''100% A'', None) \<and>
   buildTemplate ''%(a)c)'' [''by'' \<mapsto> ''A'', ''a'' \<mapsto> ''ABC''] = Inr (''ABCc)'', None)"
proof -
  let ?T = "[''by'' \<mapsto> ''A'']"
  have e1: "buildTemplate ''50'' ?T = Inr (''50'', None)"
    by (simp add: buildTemplate_def buildTemplate_loop.simps nextByte_def IndexByte_def Let_def)
  have e2: "buildTemplate ''100'' ?T = Inr (''100'', None)"
    by (simp add: buildTemplate_def buildTemplate_loop.simps nextByte_def IndexByte_def Let_def)
  have e3: "buildTemplate '' %(by)'' ?T = Inr ('' A'', None)"
    by (simp add: buildTemplate_def buildTemplate_loop.simps nextByte_def IndexByte_def Let_def)
  note t1 = buildTemplate_substitution [where k = "''by''" and T = ?T and v = "''A''"
        and pre = "''50''" and ?o1.0 = "''50''" and key = "''title''" and post = "''!''"
        and ?o2.0 = "[]"]
  note t2 = buildTemplate_substitution [where k = "''by''" and T = ?T and v = "''A''"
        and pre = "''100''" and ?o1.0 = "''100''" and key = "''title''"
        and post = "'' %(by)''" and ?o2.0 = "'' A''"]
  note t3 = buildTemplate_substitution [where k = "''by''" and T = "?T(''a'' \<mapsto> ''ABC'')"
        and v = "''ABC''" and pre = "[]" and ?o1.0 = "[]" and key = "''title''" and post = "[]"
        and ?o2.0 = "[]"]
  have r1: "buildTemplate ''%(by)'' ?T = Inr (''A'', None)"
    using t1 by simp
  have r2: "buildTemplate ''50%(title)!'' ?T =
     Inr (''50%(title)!'',
          Some (errors_New (''invalid key '' @ [CHR 0x27] @ ''title'' @ [CHR 0x27] @ '' in '' @
                            [CHR 0x27] @ ''50%(title)!'' @ [CHR 0x27])))"
    using t1 e1 by simp
  have r3: "buildTemplate ''100% %(by)'' ?T = Inr (''100% A'', None)"
    using t2 e2 e3 by simp
  have r4: "buildTemplate ''%(a)c)'' (?T(''a'' \<mapsto> ''ABC'')) = Inr (''ABCc)'', None)"
    using t3 by simp
  show ?thesis using r1 r2 r3 r4 by simp
qed

text \<open>
  C9, as stated, fails: the template \<open>%(a)%(b\<close> has a \<open>%(\<close> with no \<open>)\<close> behind it,
  and with a map that does not bind \<open>a\<close> the function returns the unresolved-key
  error for \<open>a\<close>; it does not panic.
\<close>

theorem buildTemplate_unclosed_error_counterexample:
  "''%(a)%(b'' = ''%(a)'' @ ''%('' @ ''b'' \<and> CHR '')'' \<notin> set ''b'' \<and>
   buildTemplate ''%(a)%(b'' Map.empty =
     Inr (''%(a)%(b'', Some (errors_New (invalidKey ''a'' ''%(a)%(b'')))"
  by (simp add: buildTemplate_def buildTemplate_loop.simps nextByte_def IndexByte_def Let_def)

text \<open>
  C9, amended: for every template string that has a \<open>%(\<close> with no \<open>)\<close> anywhere
  behind it, \<open>buildTemplate\<close> never returns a substituted string: it panics with a
  slice-bounds violation whose end index is one less than its start index, unless a
  placeholder before that \<open>%(\<close> has a key the map does not bind, in which case it
  returns the unresolved-key error. It does panic, at that \<open>%(\<close>, whenever the text
  before it resolves (as in \<open>%(abc\<close>). And every panic of \<open>buildTemplate\<close> is of this
  kind: at a \<open>%(\<close> with no \<open>)\<close> behind it, so a template whose every \<open>%(\<close> has a later
  \<open>)\<close> never panics.
\<close>

theorem buildTemplate_unclosed:
  "(format = pre @ ''%('' @ suf \<and> CHR '')'' \<notin> set suf \<longrightarrow>
      (\<exists>j. buildTemplate format T = Inl (SliceBounds j (int j - 1))) \<or>
      (\<exists>key. T key = None \<and>
         buildTemplate format T = Inr (format, Some (errors_New (invalidKey key format))))) \<and>
   (format = pre @ ''%('' @ suf \<and> CHR '')'' \<notin> set suf \<and>
    buildTemplate pre T = Inr (o1, None) \<longrightarrow>
      buildTemplate format T = Inl (SliceBounds (length pre + 2) (int (length pre + 2) - 1))) \<and>
   (buildTemplate format T = Inl q \<longrightarrow>
      (\<exists>j. 2 \<le> j \<and> j \<le> length format \<and> q = SliceBounds j (int j - 1) \<and>
           format ! (j - 2) = CHR ''%'' \<and> format ! (j - 1) = CHR ''('' \<and>
           CHR '')'' \<notin> set (drop j format)))"
proof (intro conjI impI)
  assume h: "format = pre @ ''%('' @ suf \<and> CHR '')'' \<notin> set suf"
  have p: "length pre + 1 < length format" "format ! (length pre) = CHR ''%''"
    "format ! (length pre + 1) = CHR ''(''" "CHR '')'' \<notin> set (drop (length pre + 2) format)"
    using h by (simp_all add: nth_append)
  show "(\<exists>j. buildTemplate format T = Inl (SliceBounds j (int j - 1))) \<or>
      (\<exists>key. T key = None \<and>
         buildTemplate format T = Inr (format, Some (errors_New (invalidKey key format))))"
    using unclosed_loop [OF p, of 0 T "[]"] by (simp add: buildTemplate_def)
next
  assume h: "format = pre @ ''%('' @ suf \<and> CHR '')'' \<notin> set suf \<and>
    buildTemplate pre T = Inr (o1, None)"
  have il: "length pre < length format" using h by simp
  have p: "nextByte format (length pre) = Some (CHR ''('') \<and> format ! (length pre) = CHR ''%''"
    using h placeholder_at [of pre "[]" suf] by simp
  have c: "CHR '')'' \<notin> set (drop (length pre + 2) format)" using h by simp
  have r: "''%('' @ suf = [] \<or> hd (''%('' @ suf) \<noteq> CHR ''(''" by simp
  have "buildTemplate_loop format T 0 [] = buildTemplate_loop format T (length pre) o1"
    using prefix_loop [OF r, of 0 pre T "[]" o1] h by (simp add: buildTemplate_def)
  also have "\<dots> = Inl (SliceBounds (length pre + 2) (int (length pre + 2) - 1))"
    using loop_panic [OF il p c] by simp
  finally show "buildTemplate format T =
      Inl (SliceBounds (length pre + 2) (int (length pre + 2) - 1))"
    by (simp add: buildTemplate_def)
next
  assume "buildTemplate format T = Inl q"
  then have "buildTemplate_loop format T 0 [] = Inl q" by (simp add: buildTemplate_def)
  from panic_loop [OF this] obtain j where
    j: "0 + 2 \<le> j \<and> j \<le> length format \<and> q = SliceBounds j (int j - 1) \<and>
       format ! (j - 2) = CHR ''%'' \<and> format ! (j - 1) = CHR ''('' \<and>
       CHR '')'' \<notin> set (drop j format)" by blast
  show "\<exists>j. 2 \<le> j \<and> j \<le> length format \<and> q = SliceBounds j (int j - 1) \<and>
           format ! (j - 2) = CHR ''%'' \<and> format ! (j - 1) = CHR ''('' \<and>
           CHR '')'' \<notin> set (drop j format)"
    by (rule exI [of _ j]) (use j in simp)
qed

theorem buildTemplate_unclosed_witness:
  "buildTemplate ''%(abc'' [''abc'' \<mapsto> ''x''] = Inl (SliceBounds 2 1) \<and>
   buildTemplate ''%(abc) by %(d'' [''abc'' \<mapsto> ''x''] = Inl (SliceBounds 12 11)"
proof -
  let ?T = "[''abc'' \<mapsto> ''x'']"
  have e: "buildTemplate ''%(abc) by '' ?T = Inr (''x by '', None)"
    by (simp add: buildTemplate_def buildTemplate_loop.simps nextByte_def IndexByte_def Let_def)
  have e0: "buildTemplate [] ?T = Inr ([], None)"
    by (simp add: buildTemplate_def buildTemplate_loop.simps)
  note t1 = buildTemplate_unclosed [where format = "''%(abc''" and pre = "[]" and suf = "''abc''"
        and T = ?T and ?o1.0 = "[]" and q = "SliceBounds 0 0"]
  note t2 = buildTemplate_unclosed [where format = "''%(abc) by %(d''"
        and pre = "''%(abc) by ''" and suf = "''d''" and T = ?T and ?o1.0 = "''x by ''"
        and q = "SliceBounds 0 0"]
  have r1: "buildTemplate ''%(abc'' ?T = Inl (SliceBounds 2 1)" using t1 e0 by simp
  have r2: "buildTemplate ''%(abc) by %(d'' ?T = Inl (SliceBounds 12 11)" using t2 e by simp
  show ?thesis using r1 r2 by simp
qed

section \<open>The repository's tests, on the model\<close>

text \<open>
  The cases of \<open>TestBuildTemplate\<close>, \<open>TestVideoBuilder\<close>, \<open>TestAdd\<close> and
  \<open>TestCollectionsFind\<close> of the repository, with the results the tests expect.
\<close>

lemma TestBuildTemplate:
  "buildTemplate ''%(abc) - %(d)'' [''abc'' \<mapsto> ''ABC'', ''d'' \<mapsto> ''D''] = Inr (''ABC - D'', None)"
  "buildTemplate ''%%(abc)%%(d)%'' [''abc'' \<mapsto> ''ABC'', ''d'' \<mapsto> ''D''] = Inr (''%ABC%D%'', None)"
  "buildTemplate ''%(ab)c)'' [''ab'' \<mapsto> ''ABC''] = Inr (''ABCc)'', None)"
  "buildTemplate ''%()'' [[] \<mapsto> ''A''] = Inr (''A'', None)"
  by (simp_all add: buildTemplate_def buildTemplate_loop.simps nextByte_def IndexByte_def Let_def)

lemma TestVideoBuilder_Title: "Title testBuilder = Inr (''TrackArtist - Name'', None)"
  by (simp add: Title_def testBuilder_def defaultFormat_def buildTemplate_def
      buildTemplate_loop.simps nextByte_def IndexByte_def Let_def)

lemma TestAdd:
  "(let c0 = \<lparr>Tracks = [], Artwork = [], Schedule = [], Artists = [], Indexes = Mapping.empty\<rparr>;
        art = \<lparr>Artwork_Artist = ''artworkartist'', Artwork_Path = ''/art'', Artwork_State = Buffered\<rparr>;
        track = \<lparr>Track_Title = [], Track_By = [], Track_Artists = [''trackartist''],
                 Track_Description = [], Track_Path = ''/track'', Track_State = Buffered\<rparr>;
        c1 = snd (AddArtwork c0 art);
        c2 = snd (AddTrack c1 track)
    in fst (Find c1 ''/art'') = Some (IsArtwork art) \<and>
       fst (Find c1 ''artworkartist'') =
         Some (IsArtist \<lparr>Artist_Name = ''artworkartist'', Artist_Links = []\<rparr>) \<and>
       fst (Find c2 ''/track'') = Some (IsTrack track) \<and>
       fst (Find c2 ''trackartist'') =
         Some (IsArtist \<lparr>Artist_Name = ''trackartist'', Artist_Links = []\<rparr>))"
  by code_simp

lemma TestCollectionsFind:
  "(let art = \<lparr>Artwork_Artist = [], Artwork_Path = ''/art'', Artwork_State = Buffered\<rparr>;
        c = \<lparr>Tracks = [\<lparr>Track_Title = [], Track_By = [], Track_Artists = [],
                 Track_Description = [], Track_Path = ''/track1'', Track_State = Buffered\<rparr>],
             Artwork = [art\<lparr>Artwork_Path := ''/art1''\<rparr>, art\<lparr>Artwork_Path := ''/art3''\<rparr>, art],
             Schedule = [], Artists = [], Indexes = Mapping.empty\<rparr>
    in fst (Find c ''/art'') = Some (IsArtwork art) \<and> fst (Find c ''/track'') = None)"
  by code_simp

lemma TestVideoBuilder_Desc:
  "map_sum id fst (Desc testBuilder testCollections) =
     Inr (''TrackArtist - Name'' @ [newline, newline] @ ''TrackArtist'' @ [newline] @
          ''- track.com/artist'' @ [newline, newline] @ ''Artwork by ArtworkArtist'' @ [newline] @
          ''- artwork.com/artist'' @ [newline], None)"
  by code_simp

section \<open>Artists of a new entity\<close>

text \<open>
  C1 says that after \<open>AddTrack\<close> returns, every artist identifier of the track has an
  entry in the artist collection. \<open>updateArtists\<close> returns at the first identifier it
  finds, so the identifiers behind it are never created: adding a track by \<open>A\<close> and
  \<open>B\<close> to collections that know \<open>A\<close> returns successfully, and the artist collection
  is still \<open>A\<close> alone, with no entry whose lowercased name is that of \<open>B\<close>.
\<close>

theorem AddTrack_second_artist_not_created:
  "fst (AddTrack loadedCollections duoTrack) = None \<and>
   Track_Artists duoTrack = [''A'', ''B''] \<and>
   map Artist_Name (Artists (snd (AddTrack loadedCollections duoTrack))) = [''A''] \<and>
   ToLower ''B'' \<notin> set (map (\<lambda>a. ToLower (Artist_Name a))
                         (Artists (snd (AddTrack loadedCollections duoTrack))))"
  by code_simp

section \<open>Errors while building the description\<close>

text \<open>
  C3 says that an unresolved key in any template used while building the description
  makes \<open>Desc\<close> return the error, in particular for the link template on the links of
  the artwork's artist. At \<open>urlBuilder\<close> the link template has the key \<open>url\<close>, which
  its substitution map does not bind, so \<open>buildTemplate\<close> returns the error for the
  one link of the artwork's artist; \<open>writeArtCredits\<close> drops it, and \<open>Desc\<close> returns a
  description without the link line and no error.
\<close>

theorem Desc_ignores_link_error:
  "buildTemplate (Format_Link (Builder_Format urlBuilder)) [''link'' \<mapsto> ''artwork.com/artist''] =
     Inr (''- %(url)'', Some (errors_New (invalidKey ''url'' ''- %(url)''))) \<and>
   map_sum id fst (Desc urlBuilder testCollections) =
     Inr (''Nobody - Name'' @ [newline, newline] @ ''Artwork by ArtworkArtist'' @ [newline], None)"
  by code_simp

section \<open>The latest scheduled time\<close>

lemma latest_loop_take:
  "n < m \<Longrightarrow> latest_loop (take m sched) n latest = latest_loop sched n latest"
  by (induction n arbitrary: latest) (simp_all split: option.split)

lemma latestScheduledTime_window:
  "latestScheduledTime now (c\<lparr>Schedule := take 256 (Schedule c)\<rparr>) = latestScheduledTime now c"
proof (cases "length (Schedule c) = 0")
  case True
  then show ?thesis by (simp add: latestScheduledTime_def)
next
  case False
  let ?s = "Schedule c"
  let ?n = "(if length ?s < 256 then length ?s else 256) - 1"
  have sel: "Schedule (c\<lparr>Schedule := take 256 ?s\<rparr>) = take 256 ?s" by simp
  have ne: "length (take 256 ?s) \<noteq> 0" using False by simp
  have len: "(if length (take 256 ?s) < 256 then length (take 256 ?s) else 256) =
      (if length ?s < 256 then length ?s else 256)" by simp
  have hd: "take 256 ?s ! 0 = ?s ! 0" using False by simp
  have lp: "latest_loop (take 256 ?s) ?n t = latest_loop ?s ?n t" for t
    by (rule latest_loop_take) (auto simp: less_imp_diff_less)
  show ?thesis
    unfolding latestScheduledTime_def Let_def sel
    by (simp only: ne False len hd lp if_False)
qed

lemma latest_loop_replicate:
  "n < m \<Longrightarrow> Video_PublishAt v = Some t \<Longrightarrow> latest_loop (replicate m v) n t = Inr t"
  by (induction n) (simp_all add: After_def)

lemma latestScheduledTime_empty:
  "Schedule c = [] \<Longrightarrow>
   latestScheduledTime now0 c = Inr (zeroTime, False) \<and> renderAll_startTime now0 now c = Inr now"
  by (simp add: latestScheduledTime_def renderAll_startTime_def)

text \<open>
  C2 says that the latest publish time is taken among the 256 videos at the newest
  end of the schedule. The loop runs over the slots below \<open>count\<close>, which are the 256
  oldest ones: at \<open>longSchedule\<close>, of 257 videos, the newest video has the latest
  publish time, and the function returns the publish time of the others.
\<close>

theorem latestScheduledTime_oldest_window:
  "length (Schedule longSchedule) = 257 \<and>
   Video_PublishAt (last (Schedule longSchedule)) = Some octoberMorning \<and>
   After octoberMorning newYearMorning \<and>
   latestScheduledTime now longSchedule = Inr (newYearMorning, True)"
proof -
  have "latestScheduledTime now longSchedule =
      latestScheduledTime now (longSchedule\<lparr>Schedule := take 256 (Schedule longSchedule)\<rparr>)"
    by (simp only: latestScheduledTime_window)
  also have "\<dots> = Inr (newYearMorning, True)"
    using latest_loop_replicate [of 255 256 oldVideo newYearMorning]
    by (simp add: latestScheduledTime_def longSchedule_def oldVideo_def)
  finally show ?thesis
    by (simp add: longSchedule_def newVideo_def After_def octoberMorning_def newYearMorning_def)
qed

section \<open>Time slots: properties\<close>

lemma wrap64_in_range:
  "- 9223372036854775808 \<le> x \<Longrightarrow> x < 9223372036854775808 \<Longrightarrow> wrap64 x = x"
  by (simp add: wrap64_def)

text \<open>
  C7: when the configured time of day parses, the slot of the video at position \<open>pos\<close>
  is computed without error. It is \<open>time.Date\<close>, in UTC and with zero nanoseconds, of
  the year, month and day of the start time advanced with \<open>AddDate\<close> by \<open>pos\<close> times
  the upload frequency days (a product of Go \<open>int\<close>s, which is the exact product
  whenever that is in the range of \<open>int\<close>) and of the hour, minute and second of the
  configured time of day. The video's \<open>PublishAt\<close> is the slot when the slot is after
  \<open>now\<close>, and \<open>now\<close> otherwise. The assignment adds no failure of its own: the step
  ends the run exactly when the configured time of day does not parse. This holds
  whatever the time functions of the library return.
\<close>

theorem publish_time_normalization:
  "(time_Parse tm ''15:04:05'' (UploadTimeUTC self) = Some uploadTime \<longrightarrow>
     (let days = (pos * UploadFrequency self + 9223372036854775808) mod 18446744073709551616
                   - 9223372036854775808;
          date = time_AddDate tm startTime 0 0 days;
          timeSlot = time_Date tm (time_Year tm date) (time_Month tm date) (time_Day tm date)
                       (time_Hour tm uploadTime) (time_Minute tm uploadTime)
                       (time_Second tm uploadTime) 0 UTC
      in (- 9223372036854775808 \<le> pos * UploadFrequency self \<and>
          pos * UploadFrequency self < 9223372036854775808 \<longrightarrow>
            days = pos * UploadFrequency self) \<and>
         scheduleTime tm self startTime pos = Inr timeSlot \<and>
         renderAll_PublishAt tm self startTime now pos vid =
           Inr (vid\<lparr>Video_PublishAt :=
                  Some (if instant now < instant timeSlot then timeSlot else now)\<rparr>))) \<and>
   (time_Parse tm ''15:04:05'' (UploadTimeUTC self) = None \<longrightarrow>
      renderAll_PublishAt tm self startTime now pos vid =
        Inl (Exit (Err_InvalidUploadTime (UploadTimeUTC self)))) \<and>
   (renderAll_PublishAt tm self startTime now pos vid = Inl stop) =
     (time_Parse tm ''15:04:05'' (UploadTimeUTC self) = None \<and>
      stop = Exit (Err_InvalidUploadTime (UploadTimeUTC self)))"
proof (intro conjI impI)
  assume p: "time_Parse tm ''15:04:05'' (UploadTimeUTC self) = Some uploadTime"
  let ?days = "(pos * UploadFrequency self + 9223372036854775808) mod 18446744073709551616
                 - 9223372036854775808"
  let ?date = "time_AddDate tm startTime 0 0 ?days"
  let ?slot = "time_Date tm (time_Year tm ?date) (time_Month tm ?date) (time_Day tm ?date)
                 (time_Hour tm uploadTime) (time_Minute tm uploadTime)
                 (time_Second tm uploadTime) 0 UTC"
  have w: "wrap64 (pos * UploadFrequency self) = ?days" by (simp only: wrap64_def)
  have g: "- 9223372036854775808 \<le> pos * UploadFrequency self \<and>
      pos * UploadFrequency self < 9223372036854775808 \<longrightarrow> ?days = pos * UploadFrequency self"
    using wrap64_in_range [of "pos * UploadFrequency self"] unfolding w by blast
  have s: "scheduleTime tm self startTime pos = Inr ?slot"
    unfolding scheduleTime_def mergeDateTimeUTC_def w using p by simp
  have r: "renderAll_PublishAt tm self startTime now pos vid =
      Inr (vid\<lparr>Video_PublishAt := Some (if instant now < instant ?slot then ?slot else now)\<rparr>)"
    unfolding renderAll_PublishAt_def s by (simp add: After_def)
  show "let days = ?days;
          date = time_AddDate tm startTime 0 0 days;
          timeSlot = time_Date tm (time_Year tm date) (time_Month tm date) (time_Day tm date)
                       (time_Hour tm uploadTime) (time_Minute tm uploadTime)
                       (time_Second tm uploadTime) 0 UTC
      in (- 9223372036854775808 \<le> pos * UploadFrequency self \<and>
          pos * UploadFrequency self < 9223372036854775808 \<longrightarrow>
            days = pos * UploadFrequency self) \<and>
         scheduleTime tm self startTime pos = Inr timeSlot \<and>
         renderAll_PublishAt tm self startTime now pos vid =
           Inr (vid\<lparr>Video_PublishAt :=
                  Some (if instant now < instant timeSlot then timeSlot else now)\<rparr>)"
    unfolding Let_def using g s r by blast
next
  assume "time_Parse tm ''15:04:05'' (UploadTimeUTC self) = None"
  then show "renderAll_PublishAt tm self startTime now pos vid =
      Inl (Exit (Err_InvalidUploadTime (UploadTimeUTC self)))"
    by (simp add: renderAll_PublishAt_def scheduleTime_def)
next
  show "(renderAll_PublishAt tm self startTime now pos vid = Inl stop) =
     (time_Parse tm ''15:04:05'' (UploadTimeUTC self) = None \<and>
      stop = Exit (Err_InvalidUploadTime (UploadTimeUTC self)))"
    by (cases "time_Parse tm ''15:04:05'' (UploadTimeUTC self)")
      (auto simp add: renderAll_PublishAt_def scheduleTime_def)
qed

lemma civil_new_year: "civilFromDays 18262 = (2020, 1, 1)"
  by (simp add: civilFromDays_def civilOfEraDay_def civilOfYear_def civilOfYearDay_def)

lemma civil_next_day: "civilFromDays 18263 = (2020, 1, 2)"
  by (simp add: civilFromDays_def civilOfEraDay_def civilOfYear_def civilOfYearDay_def)

lemma days_next_day: "daysFromCivil 2020 1 2 = 18263"
  by (simp add: daysFromCivil_def)

lemma wall_newYearMorning: "wallClock newYearMorning = 1577872800"
  by (simp add: wallClock_def newYearMorning_def zoneOffset_def)

lemma wall_noon: "wallClock noon = - 62167176000"
  by (simp add: wallClock_def noon_def zoneOffset_def)

lemma utcMachine_AddDate:
  "time_AddDate utcMachine newYearMorning 0 0 1 =
     \<lparr>instant = 1577959200 * 1000000000, loc = UTC\<rparr>"
proof -
  have "time_AddDate utcMachine newYearMorning 0 0 1 =
      calendarDate 2020 1 2 0 0 36000 0 UTC"
    by (simp add: utcMachine_def wall_newYearMorning civil_new_year)
      (simp add: newYearMorning_def)
  also have "\<dots> = \<lparr>instant = 1577959200 * 1000000000, loc = UTC\<rparr>"
    by (simp add: calendarDate_def days_next_day zoneOffset_def)
  finally show ?thesis .
qed

lemma utcMachine_day:
  "time_Year utcMachine \<lparr>instant = 1577959200 * 1000000000, loc = UTC\<rparr> = 2020"
  "time_Month utcMachine \<lparr>instant = 1577959200 * 1000000000, loc = UTC\<rparr> = 1"
  "time_Day utcMachine \<lparr>instant = 1577959200 * 1000000000, loc = UTC\<rparr> = 2"
proof -
  have w: "wallClock \<lparr>instant = 1577959200 * 1000000000, loc = UTC\<rparr> div 86400 = 18263"
    by (simp add: wallClock_def zoneOffset_def)
  show "time_Year utcMachine \<lparr>instant = 1577959200 * 1000000000, loc = UTC\<rparr> = 2020"
    "time_Month utcMachine \<lparr>instant = 1577959200 * 1000000000, loc = UTC\<rparr> = 1"
    "time_Day utcMachine \<lparr>instant = 1577959200 * 1000000000, loc = UTC\<rparr> = 2"
    using w by (simp_all add: utcMachine_def civil_next_day)
qed

lemma utcMachine_clock:
  "time_Hour utcMachine noon = 12" "time_Minute utcMachine noon = 0"
  "time_Second utcMachine noon = 0"
  by (simp_all add: utcMachine_def wall_noon)

lemma utcMachine_Date:
  "time_Date utcMachine 2020 1 2 12 0 0 0 UTC =
     \<lparr>instant = 1577966400 * 1000000000, loc = UTC\<rparr>"
  by (simp add: utcMachine_def calendarDate_def days_next_day zoneOffset_def)

lemma utcMachine_slot:
  "time_Date utcMachine
     (time_Year utcMachine (time_AddDate utcMachine newYearMorning 0 0 1))
     (time_Month utcMachine (time_AddDate utcMachine newYearMorning 0 0 1))
     (time_Day utcMachine (time_AddDate utcMachine newYearMorning 0 0 1))
     (time_Hour utcMachine noon) (time_Minute utcMachine noon) (time_Second utcMachine noon)
     0 UTC =
   \<lparr>instant = 1577966400 * 1000000000, loc = UTC\<rparr>"
  by (simp only: utcMachine_AddDate utcMachine_day utcMachine_clock utcMachine_Date)

theorem publish_time_normalization_witness:
  "renderAll_PublishAt utcMachine dailyAtNoon newYearMorning newYearMorning 1 oldVideo =
     Inr (oldVideo\<lparr>Video_PublishAt := Some \<lparr>instant = 1577966400 * 1000000000, loc = UTC\<rparr>\<rparr>) \<and>
   renderAll_PublishAt utcMachine dailyAtNoon newYearMorning octoberMorning 1 oldVideo =
     Inr (oldVideo\<lparr>Video_PublishAt := Some octoberMorning\<rparr>) \<and>
   renderAll_PublishAt utcMachine (dailyAtNoon\<lparr>UploadTimeUTC := ''noon''\<rparr>) newYearMorning
       newYearMorning 1 oldVideo =
     Inl (Exit (Err_InvalidUploadTime ''noon''))"
proof -
  have p: "time_Parse utcMachine ''15:04:05'' (UploadTimeUTC dailyAtNoon) = Some noon"
    by (simp add: utcMachine_def dailyAtNoon_def)
  have q: "time_Parse utcMachine ''15:04:05''
      (UploadTimeUTC (dailyAtNoon\<lparr>UploadTimeUTC := ''noon''\<rparr>)) = None"
    by (simp add: utcMachine_def)
  have w: "(1 * UploadFrequency dailyAtNoon + 9223372036854775808) mod 18446744073709551616
             - 9223372036854775808 = 1"
    by (simp add: dailyAtNoon_def)
  have a1: "instant newYearMorning < instant \<lparr>instant = 1577966400 * 1000000000, loc = UTC\<rparr>"
    by (simp add: newYearMorning_def)
  have a2: "\<not> instant octoberMorning < instant \<lparr>instant = 1577966400 * 1000000000, loc = UTC\<rparr>"
    by (simp add: octoberMorning_def)
  note t1 = publish_time_normalization [of utcMachine dailyAtNoon noon 1 newYearMorning
      newYearMorning oldVideo "Exit []"]
  note t2 = publish_time_normalization [of utcMachine dailyAtNoon noon 1 newYearMorning
      octoberMorning oldVideo "Exit []"]
  note t3 = publish_time_normalization [of utcMachine "dailyAtNoon\<lparr>UploadTimeUTC := ''noon''\<rparr>"
      noon 1 newYearMorning newYearMorning oldVideo "Exit []"]
  have r1: "renderAll_PublishAt utcMachine dailyAtNoon newYearMorning newYearMorning 1 oldVideo =
      Inr (oldVideo\<lparr>Video_PublishAt := Some \<lparr>instant = 1577966400 * 1000000000, loc = UTC\<rparr>\<rparr>)"
    using t1 p a1 unfolding Let_def w utcMachine_slot by simp
  have r2: "renderAll_PublishAt utcMachine dailyAtNoon newYearMorning octoberMorning 1 oldVideo =
      Inr (oldVideo\<lparr>Video_PublishAt := Some octoberMorning\<rparr>)"
    using t2 p a2 unfolding Let_def w utcMachine_slot by simp
  have r3: "renderAll_PublishAt utcMachine (dailyAtNoon\<lparr>UploadTimeUTC := ''noon''\<rparr>)
      newYearMorning newYearMorning 1 oldVideo = Inl (Exit (Err_InvalidUploadTime ''noon''))"
    using t3 q by simp
  show ?thesis using r1 r2 r3 by simp
qed

section \<open>Undo of the add command\<close>

text \<open>
  C10: with \<open>undo\<close> as the first path, the add command for music indexes the track
  slice at \<open>len - 1\<close>: on an empty slice that is index \<open>-1\<close> and a panic (not a user
  error); on a non-empty slice the last track is removed when its state is
  \<open>Buffered\<close>, and otherwise the run ends with the immutable-resource error. The same
  holds for art and the artwork slice.
\<close>

theorem AddCommand_undo:
  "0 < length paths \<and> paths ! 0 = ''undo'' \<longrightarrow>
     AddCommand_Exec NewTrack NewArtwork ''music'' paths c =
       (if Tracks c = [] then Inl (Panic (IndexOutOfRange (- 1)))
        else if Track_State (last (Tracks c)) \<noteq> Buffered
             then Inl (Exit (Err_ImmutableResource ''music''))
             else Inr (c\<lparr>Tracks := butlast (Tracks c)\<rparr>)) \<and>
     AddCommand_Exec NewTrack NewArtwork ''art'' paths c =
       (if Artwork c = [] then Inl (Panic (IndexOutOfRange (- 1)))
        else if Artwork_State (last (Artwork c)) \<noteq> Buffered
             then Inl (Exit (Err_ImmutableResource ''art''))
             else Inr (c\<lparr>Artwork := butlast (Artwork c)\<rparr>))"
  by (simp add: AddCommand_Exec_def Let_def last_conv_nth butlast_conv_take)

theorem AddCommand_undo_witness:
  "AddCommand_Exec Map.empty Map.empty ''music'' [''undo''] truncatedCollections =
     Inr (truncatedCollections\<lparr>Tracks := []\<rparr>) \<and>
   AddCommand_Exec Map.empty Map.empty ''art'' [''undo''] truncatedCollections =
     Inl (Panic (IndexOutOfRange (- 1))) \<and>
   AddCommand_Exec Map.empty Map.empty ''art'' [''undo''] placedCollections =
     Inl (Exit (Err_ImmutableResource ''art''))"
  using AddCommand_undo [of "[''undo'']" Map.empty Map.empty truncatedCollections]
    AddCommand_undo [of "[''undo'']" Map.empty Map.empty placedCollections]
  by (simp add: truncatedCollections_def placedCollections_def track1_def scheduledArt1_def)

end
